theory Spec2Isabelle
  imports Main
begin

section \<open>The WebRTC receive session of react-example.tsx\<close>

text \<open>
  The component keeps four pieces of React state (\<open>streams\<close>, \<open>status\<close>, \<open>error\<close>,
  \<open>reconnecting\<close>) and one ref (\<open>rtcConnection\<close>). The async function
  \<open>setupRTCConnection\<close> runs in segments separated by its five \<open>await\<close>s; between two
  segments any other callback of the page may run: a track or ICE event of some
  connection, a timer, the effect cleanup, or another call of \<open>setupRTCConnection\<close>.

  The model is an event-driven state machine. One step is one synchronous segment of
  JavaScript (a callback together with the continuation its promise resolution wakes).
  The media engine, the relay and the clock are the environment: they choose which
  event comes next and with which outcome. State setters are applied in call order.
\<close>

subsection \<open>Data\<close>

datatype ice_connection_state =
  IceNew | Checking | Connected | Completed | Disconnected | Failed | Closed

datatype ice_gathering_state = GatherNew | Gathering | Complete

text \<open>
  An \<open>RTCPeerConnection\<close> as far as the component reads or writes it: whether
  \<open>close()\<close> was called, whether \<open>ontrack\<close> and \<open>oniceconnectionstatechange\<close> are
  assigned, the two ICE states, and the SDP of \<open>localDescription\<close> (\<open>None\<close> is null).
\<close>

record peer_connection =
  closed :: bool
  handlers :: bool
  iceConnectionState :: ice_connection_state
  iceGatheringState :: ice_gathering_state
  localDescription :: "string option"

text \<open>An element of \<open>streams\<close>: the \<open>MediaStream\<close> is the list of track ids it wraps.\<close>

record stream_entry =
  stream :: "string list"
  label :: string

text \<open>The argument of \<open>callAthena\<close> and the value its promise resolves to.\<close>

record athena_request =
  req_type :: string
  req_sdp :: "string option"
  cameras :: "string list"
  bridge_services_in :: "string list"
  bridge_services_out :: "string list"
  req_dongleId :: string

record athena_response =
  resp_sdp :: "string option"
  resp_type :: "string option"
  resp_error :: "string option"

text \<open>
  Where an activation of \<open>setupRTCConnection\<close> stands: at one of its five \<open>await\<close>s,
  or finished, by falling off the end of the \<open>try\<close> block (\<open>Returned\<close>) or through the
  \<open>catch\<close> clause (\<open>Caught\<close>).
\<close>

datatype phase =
  AwaitCreateOffer | AwaitSetLocalDescription | AwaitIceGathering
  | AwaitCallAthena | AwaitSetRemoteDescription | Returned | Caught

text \<open>
  One activation: the \<open>pc\<close> and \<open>dongleId\<close> of its closure, its phase, whether
  \<open>checkState\<close> is registered on \<open>pc\<close>, the time at which its pending \<open>setTimeout\<close>
  is due, and the request it handed to \<open>callAthena\<close>.
\<close>

record attempt =
  pc :: nat
  dongleId :: string
  phase :: phase
  listener :: bool
  timer :: "nat option"
  request :: "athena_request option"

record session =
  streams :: "stream_entry list"
  status :: "string option"
  error :: "string option"
  reconnecting :: bool
  rtcConnection :: "nat option"
  conns :: "peer_connection list"
  attempts :: "attempt list"
  now :: nat

text \<open>How the engine's constructor calls in the first segment end.\<close>

datatype setup_outcome = ConstructorThrows string | AddTransceiverThrows string | SetupOk

text \<open>
  How an awaited promise settles. \<open>Rejected e\<close> carries \<open>String(err)\<close> of the
  rejection value; \<open>Response None\<close> is a null or undefined response.
\<close>

datatype settlement =
  Rejected string
  | Offer string
  | LocalDescriptionSet
  | Response "athena_response option"
  | RemoteDescriptionSet

datatype event =
  Negotiate "string option" setup_outcome
  | Teardown
  | Track nat string
  | IceConnectionStateChange nat ice_connection_state
  | IceGatheringStateChange nat ice_gathering_state
  | LocalDescriptionChange nat "string option"
  | Tick
  | Settle nat settlement

subsection \<open>JavaScript helpers\<close>

text \<open>Truthiness of an optional string: null, undefined and the empty string are falsy.\<close>

definition truthy :: "string option \<Rightarrow> bool" where
  "truthy v = (case v of None \<Rightarrow> False | Some x \<Rightarrow> x \<noteq> [])"

text \<open>\<open>String(new Error(m))\<close>, that is \<open>Error.prototype.toString\<close>.\<close>

definition String_Error :: "string \<Rightarrow> string" where
  "String_Error m = (if m = [] then ''Error'' else ''Error: '' @ m)"

definition init :: session where
  "init = \<lparr> streams = [], status = None, error = None, reconnecting = False,
            rtcConnection = None, conns = [], attempts = [], now = 0 \<rparr>"

definition new_pc :: peer_connection where
  "new_pc = \<lparr> closed = False, handlers = False, iceConnectionState = IceNew,
              iceGatheringState = GatherNew, localDescription = None \<rparr>"

definition set_pc :: "nat \<Rightarrow> (peer_connection \<Rightarrow> peer_connection) \<Rightarrow> session \<Rightarrow> session" where
  "set_pc c f s = (if c < length (conns s)
                   then s\<lparr>conns := (conns s)[c := f (conns s ! c)]\<rparr> else s)"

definition set_attempt :: "nat \<Rightarrow> (attempt \<Rightarrow> attempt) \<Rightarrow> session \<Rightarrow> session" where
  "set_attempt a f s = (if a < length (attempts s)
                        then s\<lparr>attempts := (attempts s)[a := f (attempts s ! a)]\<rparr> else s)"

subsection \<open>The component's functions\<close>

text \<open>Lines 20-26.\<close>

definition disconnectRTCConnection :: "session \<Rightarrow> session" where
  "disconnectRTCConnection s =
     (let s1 = (case rtcConnection s of
                  Some c \<Rightarrow> (set_pc c (\<lambda>p. p\<lparr>closed := True\<rparr>) s)\<lparr>rtcConnection := None\<rparr>
                | None \<Rightarrow> s)
      in s1\<lparr>streams := []\<rparr>)"

text \<open>Lines 133-137, for an exception whose \<open>String(err)\<close> is \<open>err\<close>.\<close>

definition catch_clause :: "string \<Rightarrow> session \<Rightarrow> session" where
  "catch_clause err s =
     s\<lparr>error := Some (''Failed to connect: '' @ err), reconnecting := False\<rparr>"

text \<open>An exception inside the \<open>try\<close> block of activation \<open>a\<close>.\<close>

definition throw :: "nat \<Rightarrow> string \<Rightarrow> session \<Rightarrow> session" where
  "throw a err s = catch_clause err (set_attempt a (\<lambda>t. t\<lparr>phase := Caught\<rparr>) s)"

text \<open>Lines 56-65: the \<open>ontrack\<close> handler for a track with id \<open>tid\<close>.\<close>

definition ontrack :: "string \<Rightarrow> session \<Rightarrow> session" where
  "ontrack tid s =
     (if list_ex (\<lambda>e. label e = tid) (streams s) then s
      else s\<lparr>streams := streams s @ [\<lparr>stream = [tid], label = tid\<rparr>]\<rparr>)"

text \<open>Lines 67-75: the handler of connection \<open>c\<close>, which reads \<open>pc.iceConnectionState\<close>.\<close>

definition oniceconnectionstatechange :: "nat \<Rightarrow> session \<Rightarrow> session" where
  "oniceconnectionstatechange c s =
     (let state = iceConnectionState (conns s ! c) in
      if state \<in> set [Connected, Completed] then s\<lparr>status := None\<rparr>
      else if state \<in> set [Failed, Disconnected] then s\<lparr>error := Some ''Connection failed''\<rparr>
      else s)"

text \<open>
  Lines 100-114, the segment after the ICE wait: the status, the SDP read from
  \<open>pc.localDescription\<close> at this moment, and the call of \<open>callAthena\<close>.
\<close>

definition forwardWebRTC :: "string option \<Rightarrow> string \<Rightarrow> athena_request" where
  "forwardWebRTC sdp d =
     \<lparr> req_type = ''forwardWebRTC'', req_sdp = sdp, cameras = [''driver'', ''wideRoad''],
       bridge_services_in = [], bridge_services_out = [], req_dongleId = d \<rparr>"

definition after_ice_wait :: "nat \<Rightarrow> session \<Rightarrow> session" where
  "after_ice_wait a s =
     (let t = attempts s ! a;
          sdp = localDescription (conns s ! pc t);
          req = forwardWebRTC sdp (dongleId t)
      in set_attempt a (\<lambda>t. t\<lparr>phase := AwaitCallAthena, request := Some req\<rparr>)
           (s\<lparr>status := Some ''Sending offer via Athena...''\<rparr>))"

text \<open>\<open>resolve()\<close> of the ICE-wait promise: only the first call settles it.\<close>

definition resolve :: "nat \<Rightarrow> session \<Rightarrow> session" where
  "resolve a s = (if phase (attempts s ! a) = AwaitIceGathering then after_ice_wait a s else s)"

text \<open>Lines 82-98: the executor of the ICE-wait promise, run when \<open>setLocalDescription\<close> resolved.\<close>

definition ice_wait :: "nat \<Rightarrow> session \<Rightarrow> session" where
  "ice_wait a s =
     (let s1 = set_attempt a (\<lambda>t. t\<lparr>phase := AwaitIceGathering\<rparr>) s in
      if iceGatheringState (conns s ! pc (attempts s ! a)) = Complete then resolve a s1
      else set_attempt a (\<lambda>t. t\<lparr>listener := True, timer := Some (now s + 2000)\<rparr>) s1)"

text \<open>Lines 86-91: the listener \<open>checkState\<close> of activation \<open>a\<close>.\<close>

definition checkState :: "nat \<Rightarrow> session \<Rightarrow> session" where
  "checkState a s =
     (if iceGatheringState (conns s ! pc (attempts s ! a)) = Complete
      then resolve a (set_attempt a (\<lambda>t. t\<lparr>listener := False\<rparr>) s)
      else s)"

text \<open>Lines 93-96: the timeout callback of activation \<open>a\<close>.\<close>

definition timeout_callback :: "nat \<Rightarrow> session \<Rightarrow> session" where
  "timeout_callback a s =
     resolve a (set_attempt a (\<lambda>t. t\<lparr>listener := False, timer := None\<rparr>) s)"

text \<open>Lines 116-128, the segment after \<open>callAthena\<close> resolved with \<open>resp\<close>.\<close>

definition after_callAthena :: "nat \<Rightarrow> athena_response option \<Rightarrow> session \<Rightarrow> session" where
  "after_callAthena a resp s =
     (case resp of
        None \<Rightarrow> throw a (String_Error ''Unknown error from Athena'') s
      | Some r \<Rightarrow>
          if truthy (resp_error r) then throw a (String_Error (the (resp_error r))) s
          else if \<not> truthy (resp_sdp r) \<or> \<not> truthy (resp_type r)
          then throw a (String_Error ''Invalid response from webrtcd'') s
          else set_attempt a (\<lambda>t. t\<lparr>phase := AwaitSetRemoteDescription\<rparr>) s)"

text \<open>Lines 130-131, the segment after \<open>setRemoteDescription\<close> resolved.\<close>

definition after_setRemoteDescription :: "nat \<Rightarrow> session \<Rightarrow> session" where
  "after_setRemoteDescription a s =
     set_attempt a (\<lambda>t. t\<lparr>phase := Returned\<rparr>) (s\<lparr>status := None, reconnecting := False\<rparr>)"

text \<open>
  Lines 28-79, the first segment of \<open>setupRTCConnection\<close>, called with the \<open>dongleId\<close>
  of the render it closes over. A constructor that throws leaves the \<open>try\<close> block
  before anything is awaited, so no activation stays pending.
\<close>

definition setupRTCConnection :: "string option \<Rightarrow> setup_outcome \<Rightarrow> session \<Rightarrow> session" where
  "setupRTCConnection d out s =
     (if \<not> truthy d then s
      else
        let s1 = disconnectRTCConnection s;
            s2 = s1\<lparr>reconnecting := True, error := None,
                    status := Some ''Initiating connection...''\<rparr>;
            n = length (conns s2)
        in case out of
             ConstructorThrows e \<Rightarrow> catch_clause e s2
           | AddTransceiverThrows e \<Rightarrow>
               catch_clause e (s2\<lparr>conns := conns s2 @ [new_pc], rtcConnection := Some n\<rparr>)
           | SetupOk \<Rightarrow>
               s2\<lparr>conns := conns s2 @ [new_pc\<lparr>handlers := True\<rparr>],
                  rtcConnection := Some n,
                  status := Some ''Creating offer...'',
                  attempts := attempts s2 @
                    [\<lparr>pc = n, dongleId = the d, phase = AwaitCreateOffer,
                      listener = False, timer = None, request = None\<rparr>]\<rparr>)"

text \<open>
  The continuation of activation \<open>a\<close> when the promise it awaits settles. A settlement
  that does not belong to the awaited promise is not delivered. The ICE-wait promise
  is settled by \<open>checkState\<close> or the timer only, and never rejects.
\<close>

definition resume :: "nat \<Rightarrow> settlement \<Rightarrow> session \<Rightarrow> session" where
  "resume a r s =
     (if \<not> a < length (attempts s) then s
      else case phase (attempts s ! a) of
        AwaitCreateOffer \<Rightarrow>
          (case r of
             Rejected e \<Rightarrow> throw a e s
           | Offer sdp \<Rightarrow> set_attempt a (\<lambda>t. t\<lparr>phase := AwaitSetLocalDescription\<rparr>) s
           | _ \<Rightarrow> s)
      | AwaitSetLocalDescription \<Rightarrow>
          (case r of
             Rejected e \<Rightarrow> throw a e s
           | LocalDescriptionSet \<Rightarrow> ice_wait a s
           | _ \<Rightarrow> s)
      | AwaitCallAthena \<Rightarrow>
          (case r of
             Rejected e \<Rightarrow> throw a e s
           | Response resp \<Rightarrow> after_callAthena a resp s
           | _ \<Rightarrow> s)
      | AwaitSetRemoteDescription \<Rightarrow>
          (case r of
             Rejected e \<Rightarrow> throw a e s
           | RemoteDescriptionSet \<Rightarrow> after_setRemoteDescription a s
           | _ \<Rightarrow> s)
      | _ \<Rightarrow> s)"

subsection \<open>The event loop\<close>

text \<open>The listeners \<open>checkState\<close> registered on connection \<open>c\<close>, in registration order.\<close>

definition dispatch_gathering :: "nat \<Rightarrow> session \<Rightarrow> session" where
  "dispatch_gathering c s =
     fold (\<lambda>a s. if pc (attempts s ! a) = c \<and> listener (attempts s ! a)
                 then checkState a s else s)
          [0..<length (attempts s)] s"

text \<open>The timers that are due at the current time.\<close>

definition fire_timers :: "session \<Rightarrow> session" where
  "fire_timers s =
     fold (\<lambda>a s. case timer (attempts s ! a) of
                   Some d \<Rightarrow> if d \<le> now s then timeout_callback a s else s
                 | None \<Rightarrow> s)
          [0..<length (attempts s)] s"

text \<open>
  One event. The engine's events reach a connection's handlers once they are assigned;
  the model does not assume that the engine stays silent after \<open>close()\<close>. \<open>Tick\<close> is
  one millisecond.
\<close>

fun step :: "event \<Rightarrow> session \<Rightarrow> session" where
  "step (Negotiate d out) s = setupRTCConnection d out s"
| "step Teardown s = disconnectRTCConnection s"
| "step (Track c tid) s =
     (if c < length (conns s) \<and> handlers (conns s ! c) then ontrack tid s else s)"
| "step (IceConnectionStateChange c st) s =
     (if c < length (conns s)
      then let s1 = set_pc c (\<lambda>p. p\<lparr>iceConnectionState := st\<rparr>) s
           in if handlers (conns s ! c) then oniceconnectionstatechange c s1 else s1
      else s)"
| "step (IceGatheringStateChange c g) s =
     (if c < length (conns s)
      then dispatch_gathering c (set_pc c (\<lambda>p. p\<lparr>iceGatheringState := g\<rparr>) s)
      else s)"
| "step (LocalDescriptionChange c d) s = set_pc c (\<lambda>p. p\<lparr>localDescription := d\<rparr>) s"
| "step Tick s = fire_timers (s\<lparr>now := now s + 1\<rparr>)"
| "step (Settle a r) s = resume a r s"

definition run :: "event list \<Rightarrow> session \<Rightarrow> session" where
  "run evs s = fold step evs s"

text \<open>The connections on which \<open>close()\<close> has not been called.\<close>

definition live :: "session \<Rightarrow> nat list" where
  "live s = filter (\<lambda>c. \<not> closed (conns s ! c)) [0..<length (conns s)]"

text \<open>
  The events after which the error message is the one before: all but a call of
  \<open>setupRTCConnection\<close>, an ICE event reporting failed or disconnected, a rejection, and
  a relay response that line 116 or line 124 turns into an exception.
\<close>

fun quiet :: "event \<Rightarrow> bool" where
  "quiet (Negotiate d out) = False"
| "quiet (IceConnectionStateChange c st) = (st \<noteq> Failed \<and> st \<noteq> Disconnected)"
| "quiet (Settle a (Rejected e)) = False"
| "quiet (Settle a (Response None)) = False"
| "quiet (Settle a (Response (Some r))) =
     (\<not> truthy (resp_error r) \<and> truthy (resp_sdp r) \<and> truthy (resp_type r))"
| "quiet e = True"

subsection \<open>Frames\<close>

text \<open>What a segment of activation \<open>a\<close> leaves alone.\<close>

definition segment_frame :: "nat \<Rightarrow> session \<Rightarrow> session \<Rightarrow> bool" where
  "segment_frame a s s' =
     (streams s' = streams s \<and> rtcConnection s' = rtcConnection s \<and> conns s' = conns s \<and>
      now s' = now s \<and> length (attempts s') = length (attempts s) \<and>
      (\<forall>b. b \<noteq> a \<longrightarrow> attempts s' ! b = attempts s ! b))"

text \<open>What a fold of segments leaves alone.\<close>

definition env_frame :: "session \<Rightarrow> session \<Rightarrow> bool" where
  "env_frame s s' =
     (streams s' = streams s \<and> rtcConnection s' = rtcConnection s \<and> conns s' = conns s \<and>
      now s' = now s \<and> length (attempts s') = length (attempts s))"

subsection \<open>The ICE wait\<close>

text \<open>
  Activation \<open>a\<close> is past \<open>setLocalDescription\<close>, and while its ICE wait is pending its
  timer is armed for a time still to come, at most 2000 ms after \<open>t0\<close>.
\<close>

definition waiting_bound :: "nat \<Rightarrow> nat \<Rightarrow> session \<Rightarrow> bool" where
  "waiting_bound t0 a s =
     (a < length (attempts s) \<and>
      phase (attempts s ! a) \<noteq> AwaitCreateOffer \<and>
      phase (attempts s ! a) \<noteq> AwaitSetLocalDescription \<and>
      (phase (attempts s ! a) = AwaitIceGathering \<longrightarrow>
         (\<exists>d. timer (attempts s ! a) = Some d \<and> now s < d \<and> d \<le> t0 + 2000)))"

text \<open>
  Activation \<open>a\<close>, which started its ICE wait as \<open>w\<close>, is still waiting or has just
  called \<open>callAthena\<close> with the local description the connection has in \<open>s\<close>.
\<close>

definition wait_outcome :: "nat \<Rightarrow> attempt \<Rightarrow> session \<Rightarrow> bool" where
  "wait_outcome a w s =
     (a < length (attempts s) \<and> pc (attempts s ! a) = pc w \<and>
      dongleId (attempts s ! a) = dongleId w \<and>
      (phase (attempts s ! a) = AwaitIceGathering \<or>
       phase (attempts s ! a) = AwaitCallAthena \<and>
       request (attempts s ! a) =
         Some (forwardWebRTC (localDescription (conns s ! pc w)) (dongleId w))))"

text \<open>
  Activation \<open>a\<close>, called for the device \<open>d\<close>, is still in its ICE wait or has handed
  \<open>callAthena\<close> a \<open>forwardWebRTC\<close> request for \<open>d\<close> with the two cameras and no bridge
  services.
\<close>

definition relay_called :: "nat \<Rightarrow> string \<Rightarrow> session \<Rightarrow> bool" where
  "relay_called a d s =
     (a < length (attempts s) \<and> dongleId (attempts s ! a) = d \<and>
      (phase (attempts s ! a) = AwaitIceGathering \<or>
       (\<exists>sdp. request (attempts s ! a) =
          Some \<lparr>req_type = ''forwardWebRTC'', req_sdp = sdp,
                 cameras = [''driver'', ''wideRoad''],
                 bridge_services_in = [], bridge_services_out = [],
                 req_dongleId = d\<rparr>)))"

section \<open>Basic facts\<close>

lemma segment_frame_refl: "segment_frame a s s"
  by (simp add: segment_frame_def)

lemma segment_frame_trans:
  "segment_frame a s s' \<Longrightarrow> segment_frame a s' s'' \<Longrightarrow> segment_frame a s s''"
  by (simp add: segment_frame_def)

lemma set_attempt_frame: "segment_frame a s (set_attempt a f s)"
  by (simp add: segment_frame_def set_attempt_def)

lemma set_attempt_fields:
  "status (set_attempt a f s) = status s"
  "error (set_attempt a f s) = error s"
  "reconnecting (set_attempt a f s) = reconnecting s"
  "streams (set_attempt a f s) = streams s"
  "rtcConnection (set_attempt a f s) = rtcConnection s"
  "conns (set_attempt a f s) = conns s"
  "now (set_attempt a f s) = now s"
  "length (attempts (set_attempt a f s)) = length (attempts s)"
  by (simp_all add: set_attempt_def)

lemma set_attempt_nth:
  "attempts (set_attempt a f s) ! b =
     (if b = a \<and> a < length (attempts s) then f (attempts s ! a) else attempts s ! b)"
  by (simp add: set_attempt_def)

lemma set_pc_fields:
  "status (set_pc c f s) = status s"
  "error (set_pc c f s) = error s"
  "reconnecting (set_pc c f s) = reconnecting s"
  "streams (set_pc c f s) = streams s"
  "rtcConnection (set_pc c f s) = rtcConnection s"
  "attempts (set_pc c f s) = attempts s"
  "now (set_pc c f s) = now s"
  "length (conns (set_pc c f s)) = length (conns s)"
  by (simp_all add: set_pc_def)

lemma set_pc_nth:
  "conns (set_pc c f s) ! d =
     (if d = c \<and> c < length (conns s) then f (conns s ! c) else conns s ! d)"
  by (simp add: set_pc_def)

lemma catch_clause_fields:
  "status (catch_clause e s) = status s"
  "error (catch_clause e s) = Some (''Failed to connect: '' @ e)"
  "reconnecting (catch_clause e s) = False"
  "streams (catch_clause e s) = streams s"
  "rtcConnection (catch_clause e s) = rtcConnection s"
  "conns (catch_clause e s) = conns s"
  "attempts (catch_clause e s) = attempts s"
  "now (catch_clause e s) = now s"
  by (simp_all add: catch_clause_def)

lemma throw_frame: "segment_frame a s (throw a e s)"
  by (simp add: segment_frame_def throw_def catch_clause_fields set_attempt_fields set_attempt_nth)

lemma after_ice_wait_frame: "segment_frame a s (after_ice_wait a s)"
  by (simp add: segment_frame_def after_ice_wait_def Let_def set_attempt_fields set_attempt_nth)

lemma resolve_frame: "segment_frame a s (resolve a s)"
  by (simp add: resolve_def after_ice_wait_frame segment_frame_refl)

lemma ice_wait_frame: "segment_frame a s (ice_wait a s)"
  unfolding ice_wait_def Let_def
  by (auto intro: segment_frame_trans [OF set_attempt_frame resolve_frame]
                  segment_frame_trans [OF set_attempt_frame set_attempt_frame])

lemma checkState_frame: "segment_frame a s (checkState a s)"
  unfolding checkState_def
  by (auto intro: segment_frame_trans [OF set_attempt_frame resolve_frame] segment_frame_refl)

lemma timeout_callback_frame: "segment_frame a s (timeout_callback a s)"
  unfolding timeout_callback_def
  by (rule segment_frame_trans [OF set_attempt_frame resolve_frame])

lemma after_callAthena_frame: "segment_frame a s (after_callAthena a resp s)"
  by (simp add: after_callAthena_def throw_frame set_attempt_frame split: option.split)

lemma after_setRemoteDescription_frame: "segment_frame a s (after_setRemoteDescription a s)"
  by (simp add: segment_frame_def after_setRemoteDescription_def set_attempt_fields set_attempt_nth)

lemma resume_frame: "segment_frame a s (resume a r s)"
  by (simp add: resume_def segment_frame_refl throw_frame set_attempt_frame ice_wait_frame
        after_callAthena_frame after_setRemoteDescription_frame
      split: phase.split settlement.split)

lemma fold_preserves:
  "(\<And>x s. P s \<Longrightarrow> P (f x s)) \<Longrightarrow> P s \<Longrightarrow> P (fold f xs s)"
  by (induction xs arbitrary: s) auto

lemma segment_env_frame: "segment_frame a s s' \<Longrightarrow> env_frame s0 s \<Longrightarrow> env_frame s0 s'"
  by (simp add: segment_frame_def env_frame_def)

lemma env_frame_refl: "env_frame s s"
  by (simp add: env_frame_def)

lemma dispatch_gathering_frame: "env_frame s (dispatch_gathering c s)"
  unfolding dispatch_gathering_def
  by (rule fold_preserves [where P = "env_frame s"])
     (simp_all add: segment_env_frame [OF checkState_frame] env_frame_refl)

lemma fire_timers_frame: "env_frame s (fire_timers s)"
  unfolding fire_timers_def
  by (rule fold_preserves [where P = "env_frame s"])
     (simp_all add: segment_env_frame [OF timeout_callback_frame] env_frame_refl split: option.split)

lemma oniceconnectionstatechange_fields:
  "streams (oniceconnectionstatechange c s) = streams s"
  "reconnecting (oniceconnectionstatechange c s) = reconnecting s"
  "rtcConnection (oniceconnectionstatechange c s) = rtcConnection s"
  "conns (oniceconnectionstatechange c s) = conns s"
  "attempts (oniceconnectionstatechange c s) = attempts s"
  "now (oniceconnectionstatechange c s) = now s"
  by (simp_all add: oniceconnectionstatechange_def Let_def)

lemma ontrack_fields:
  "status (ontrack tid s) = status s"
  "error (ontrack tid s) = error s"
  "reconnecting (ontrack tid s) = reconnecting s"
  "rtcConnection (ontrack tid s) = rtcConnection s"
  "conns (ontrack tid s) = conns s"
  "attempts (ontrack tid s) = attempts s"
  "now (ontrack tid s) = now s"
  by (simp_all add: ontrack_def)

lemma disconnect_fields:
  "streams (disconnectRTCConnection s) = []"
  "rtcConnection (disconnectRTCConnection s) = None"
  "status (disconnectRTCConnection s) = status s"
  "error (disconnectRTCConnection s) = error s"
  "reconnecting (disconnectRTCConnection s) = reconnecting s"
  "attempts (disconnectRTCConnection s) = attempts s"
  "now (disconnectRTCConnection s) = now s"
  "length (conns (disconnectRTCConnection s)) = length (conns s)"
  by (simp_all add: disconnectRTCConnection_def Let_def set_pc_fields split: option.split)

lemma setup_noop: "\<not> truthy d \<Longrightarrow> setupRTCConnection d out s = s"
  by (simp add: setupRTCConnection_def)

lemma setup_streams: "truthy d \<Longrightarrow> streams (setupRTCConnection d out s) = []"
  by (simp add: setupRTCConnection_def Let_def catch_clause_fields disconnect_fields
      split: setup_outcome.split)

text \<open>The definitions a concrete run is evaluated with.\<close>

lemmas model_defs =
  run_def init_def truthy_def String_Error_def new_pc_def set_pc_def set_attempt_def
  disconnectRTCConnection_def catch_clause_def throw_def ontrack_def
  oniceconnectionstatechange_def forwardWebRTC_def after_ice_wait_def resolve_def ice_wait_def checkState_def
  timeout_callback_def after_callAthena_def after_setRemoteDescription_def
  setupRTCConnection_def resume_def dispatch_gathering_def fire_timers_def live_def Let_def

section \<open>The track registry\<close>

lemma step_streams:
  "streams (step e s) = streams s \<or> streams (step e s) = [] \<or>
   (\<exists>tid. streams (step e s) = streams (ontrack tid s))"
proof (cases e)
  case (Negotiate d out)
  then show ?thesis by (cases "truthy d") (simp_all add: setup_noop setup_streams)
next
  case Teardown
  then show ?thesis by (simp add: disconnect_fields)
next
  case (Track c tid)
  then show ?thesis by auto
next
  case (IceConnectionStateChange c st)
  then show ?thesis by (simp add: Let_def oniceconnectionstatechange_fields set_pc_fields)
next
  case (IceGatheringStateChange c g)
  have "streams (dispatch_gathering c s') = streams s'" for s'
    using dispatch_gathering_frame [of s' c] by (simp add: env_frame_def)
  with IceGatheringStateChange show ?thesis by (simp add: set_pc_fields)
next
  case (LocalDescriptionChange c d)
  then show ?thesis by (simp add: set_pc_fields)
next
  case Tick
  have "streams (fire_timers s') = streams s'" for s'
    using fire_timers_frame [of s'] by (simp add: env_frame_def)
  with Tick show ?thesis by simp
next
  case (Settle a r)
  then show ?thesis using resume_frame [of a s r] by (simp add: segment_frame_def)
qed

lemma ontrack_distinct:
  "distinct (map label (streams s)) \<Longrightarrow> distinct (map label (streams (ontrack tid s)))"
  by (auto simp: ontrack_def list_ex_iff)

lemma step_distinct:
  "distinct (map label (streams s)) \<Longrightarrow> distinct (map label (streams (step e s)))"
  using step_streams [of e s] by (auto simp: ontrack_distinct)

lemma run_snoc: "run (evs @ [e]) s = step e (run evs s)"
  by (simp add: run_def)

lemma run_distinct: "distinct (map label (streams (run evs init)))"
  by (induction evs rule: rev_induct) (simp_all add: run_def init_def step_distinct)

lemma ontrack_present: "list_ex (\<lambda>e. label e = tid) (streams s) \<Longrightarrow> ontrack tid s = s"
  by (simp add: ontrack_def)

lemma ontrack_idem: "ontrack tid (ontrack tid s) = ontrack tid s"
  by (simp add: ontrack_def)

text \<open>
  Claim C2. In every reachable state the labels of \<open>streams\<close> are pairwise different, so a
  track identifier has at most one entry. A track event whose identifier is already
  present leaves the whole state as it is, and firing the same event a second time
  changes nothing.
\<close>

theorem track_registry_one_entry_per_id:
  "distinct (map label (streams (run evs init))) \<and>
   (list_ex (\<lambda>e. label e = tid) (streams s) \<longrightarrow> step (Track c tid) s = s) \<and>
   step (Track c tid) (step (Track c tid) s) = step (Track c tid) s"
  by (simp add: run_distinct ontrack_present ontrack_idem ontrack_fields)

theorem track_registry_one_entry_per_id_witness:
  "list_ex (\<lambda>e. label e = ''t1'') (streams (run [Negotiate (Some ''abc123'') SetupOk, Track 0 ''t1''] init)) \<and>
   step (Track 0 ''t1'') (run [Negotiate (Some ''abc123'') SetupOk, Track 0 ''t1''] init)
     = run [Negotiate (Some ''abc123'') SetupOk, Track 0 ''t1''] init \<and>
   length (streams (run [Negotiate (Some ''abc123'') SetupOk, Track 0 ''t1''] init)) = 1"
proof -
  let ?s = "run [Negotiate (Some ''abc123'') SetupOk, Track 0 ''t1''] init"
  have p: "list_ex (\<lambda>e. label e = ''t1'') (streams ?s)"
    by (simp add: run_def init_def setupRTCConnection_def truthy_def disconnectRTCConnection_def
        new_pc_def ontrack_def Let_def)
  have "step (Track 0 ''t1'') ?s = ?s"
    using track_registry_one_entry_per_id [of "[]" "''t1''" ?s 0] p by blast
  moreover have "length (streams ?s) = 1"
    by (simp add: run_def init_def setupRTCConnection_def truthy_def disconnectRTCConnection_def
        new_pc_def ontrack_def Let_def)
  ultimately show ?thesis using p by simp
qed

section \<open>An absent device identifier\<close>

text \<open>
  Claim C10. Called with a falsy \<open>dongleId\<close> (undefined or the empty string),
  \<open>setupRTCConnection\<close> returns at once: the state, with its connections, track
  registry, status, error and reconnect flag, is the one before the call.
\<close>

theorem negotiate_without_device_is_noop:
  "\<not> truthy d \<Longrightarrow> step (Negotiate d out) s = s"
  by (simp add: setup_noop)

theorem negotiate_without_device_is_noop_witness:
  "\<not> truthy None \<and> \<not> truthy (Some []) \<and>
   step (Negotiate None SetupOk) (run [Negotiate (Some ''abc123'') SetupOk, Track 0 ''t1''] init)
     = run [Negotiate (Some ''abc123'') SetupOk, Track 0 ''t1''] init \<and>
   step (Negotiate (Some []) SetupOk)
        (run [Negotiate (Some ''abc123'') SetupOk, Track 0 ''t1''] init)
     = run [Negotiate (Some ''abc123'') SetupOk, Track 0 ''t1''] init \<and>
   live (step (Negotiate None SetupOk)
           (run [Negotiate (Some ''abc123'') SetupOk, Track 0 ''t1''] init)) = [0] \<and>
   streams (step (Negotiate None SetupOk)
              (run [Negotiate (Some ''abc123'') SetupOk, Track 0 ''t1''] init))
     = [\<lparr>stream = [''t1''], label = ''t1''\<rparr>] \<and>
   status (step (Negotiate None SetupOk)
             (run [Negotiate (Some ''abc123'') SetupOk, Track 0 ''t1''] init))
     = Some ''Creating offer...'' \<and>
   reconnecting (step (Negotiate None SetupOk)
                   (run [Negotiate (Some ''abc123'') SetupOk, Track 0 ''t1''] init))"
proof -
  let ?s = "run [Negotiate (Some ''abc123'') SetupOk, Track 0 ''t1''] init"
  have a: "\<not> truthy None" and b: "\<not> truthy (Some [])" by (simp_all add: truthy_def)
  have v: "live ?s = [0]" "streams ?s = [\<lparr>stream = [''t1''], label = ''t1''\<rparr>]"
    "status ?s = Some ''Creating offer...''" "reconnecting ?s"
    by (simp_all add: model_defs)
  show ?thesis
    using a b v negotiate_without_device_is_noop [OF a, of SetupOk ?s]
      negotiate_without_device_is_noop [OF b, of SetupOk ?s]
    by simp
qed

section \<open>One live connection\<close>

lemma live_iff: "c \<in> set (live s) \<longleftrightarrow> c < length (conns s) \<and> \<not> closed (conns s ! c)"
  by (auto simp: live_def)

lemma distinct_live: "distinct (live s)"
  by (simp add: live_def)

lemma live_conns: "conns s' = conns s \<Longrightarrow> live s' = live s"
  by (simp add: live_def)

lemma live_set_pc:
  "(\<And>p. closed (f p) = closed p) \<Longrightarrow> live (set_pc c f s) = live s"
  by (simp add: live_def set_pc_def nth_list_update cong: filter_cong)

lemma live_nil_iff: "live s = [] \<longleftrightarrow> (\<forall>c < length (conns s). closed (conns s ! c))"
  by (auto simp: live_def filter_empty_conv)

text \<open>Every connection that is not closed is the one the ref holds.\<close>

lemma live_disconnect:
  assumes "\<forall>c \<in> set (live s). rtcConnection s = Some c"
  shows "live (disconnectRTCConnection s) = []"
proof (cases "rtcConnection s")
  case None
  with assms have "live s = []" by (cases "live s") auto
  with None show ?thesis by (simp add: disconnectRTCConnection_def live_def)
next
  case (Some c)
  have "closed (conns (disconnectRTCConnection s) ! d)" if "d < length (conns s)" for d
  proof (cases "d = c")
    case True
    with Some that show ?thesis
      by (simp add: disconnectRTCConnection_def set_pc_def)
  next
    case False
    with assms Some have "d \<notin> set (live s)" by auto
    with that have "closed (conns s ! d)" by (simp add: live_iff)
    with Some False show ?thesis
      by (simp add: disconnectRTCConnection_def set_pc_def)
  qed
  then show ?thesis by (simp add: live_nil_iff disconnect_fields)
qed

lemma live_setup:
  assumes "\<forall>c \<in> set (live s). rtcConnection s = Some c" and "truthy d"
  shows "\<forall>c \<in> set (live (setupRTCConnection d out s)).
           rtcConnection (setupRTCConnection d out s) = Some c \<and> c = length (conns s)"
proof -
  let ?s1 = "disconnectRTCConnection s"
  have "live ?s1 = []" using assms(1) by (rule live_disconnect)
  then have l: "\<forall>c < length (conns s). closed (conns ?s1 ! c)"
    by (simp add: live_nil_iff disconnect_fields)
  have n: "length (conns ?s1) = length (conns s)" by (simp add: disconnect_fields)
  show ?thesis
  proof (cases out)
    case (ConstructorThrows e)
    with assms(2) l n show ?thesis
      by (simp add: setupRTCConnection_def Let_def catch_clause_def live_iff)
  next
    case (AddTransceiverThrows e)
    with assms(2) l n show ?thesis
      by (auto simp: setupRTCConnection_def Let_def catch_clause_def live_iff nth_append
          less_Suc_eq split: if_splits)
  next
    case SetupOk
    with assms(2) l n show ?thesis
      by (auto simp: setupRTCConnection_def Let_def live_iff nth_append
          less_Suc_eq split: if_splits)
  qed
qed

lemma step_live:
  assumes "\<forall>c \<in> set (live s). rtcConnection s = Some c"
  shows "\<forall>c \<in> set (live (step e s)). rtcConnection (step e s) = Some c"
proof (cases e)
  case (Negotiate d out)
  then show ?thesis using assms live_setup [of s d out] by (cases "truthy d") (auto simp: setup_noop)
next
  case Teardown
  then show ?thesis using live_disconnect [OF assms] by simp
next
  case (Track c tid)
  then show ?thesis using assms by (simp add: live_conns [of "ontrack tid s" s] ontrack_fields)
next
  case (IceConnectionStateChange c st)
  have "live (set_pc c (\<lambda>p. p\<lparr>iceConnectionState := st\<rparr>) s) = live s"
    by (rule live_set_pc) simp
  with IceConnectionStateChange assms show ?thesis
    by (simp add: Let_def live_conns [of "oniceconnectionstatechange c t" t for t]
        oniceconnectionstatechange_fields set_pc_fields)
next
  case (IceGatheringStateChange c g)
  let ?t = "set_pc c (\<lambda>p. p\<lparr>iceGatheringState := g\<rparr>) s"
  have "live ?t = live s" by (rule live_set_pc) simp
  moreover have "env_frame ?t (dispatch_gathering c ?t)" by (rule dispatch_gathering_frame)
  ultimately show ?thesis using IceGatheringStateChange assms
    by (simp add: env_frame_def live_conns [of "dispatch_gathering c ?t" ?t] set_pc_fields)
next
  case (LocalDescriptionChange c d)
  have "live (set_pc c (\<lambda>p. p\<lparr>localDescription := d\<rparr>) s) = live s"
    by (rule live_set_pc) simp
  with LocalDescriptionChange assms show ?thesis by (simp add: set_pc_fields)
next
  case Tick
  let ?t = "s\<lparr>now := now s + 1\<rparr>"
  have "env_frame ?t (fire_timers ?t)" by (rule fire_timers_frame)
  then have "conns (fire_timers ?t) = conns s" "rtcConnection (fire_timers ?t) = rtcConnection s"
    by (simp_all add: env_frame_def)
  then show ?thesis using Tick assms live_conns [of "fire_timers ?t" s] by simp
next
  case (Settle a r)
  have "segment_frame a s (resume a r s)" by (rule resume_frame)
  then show ?thesis using Settle assms
    by (simp add: segment_frame_def live_conns [of "resume a r s" s])
qed

lemma run_live: "\<forall>c \<in> set (live (run evs init)). rtcConnection (run evs init) = Some c"
proof (induction evs rule: rev_induct)
  case Nil
  then show ?case by (simp add: run_def init_def live_def)
next
  case (snoc e evs)
  then show ?case unfolding run_snoc by (rule step_live)
qed

lemma at_most_one:
  assumes "\<forall>c \<in> set (live s). rtcConnection s = Some c"
  shows "length (live s) \<le> 1"
proof -
  have "set (live s) \<subseteq> set_option (rtcConnection s)" using assms by auto
  then have "card (set (live s)) \<le> card (set_option (rtcConnection s))"
    by (intro card_mono) auto
  also have "\<dots> \<le> 1" by (cases "rtcConnection s") auto
  finally show ?thesis by (simp add: distinct_card [OF distinct_live])
qed

text \<open>
  Claim C1. After any sequence of events (calls of \<open>setupRTCConnection\<close> at any point of
  earlier activations, cleanups, engine events, settlements, clock ticks) at most one
  connection is not closed, and it is the one the ref holds. The first action of a new
  negotiation, \<open>disconnectRTCConnection\<close>, leaves no connection alive, so after the whole
  first segment only the connection just created can be alive; the cleanup leaves none.
\<close>

theorem at_most_one_live_connection:
  "length (live (run evs init)) \<le> 1 \<and>
   set (live (run evs init)) \<subseteq> set_option (rtcConnection (run evs init)) \<and>
   live (disconnectRTCConnection (run evs init)) = [] \<and>
   live (step Teardown (run evs init)) = [] \<and>
   (truthy d \<longrightarrow>
      set (live (step (Negotiate d out) (run evs init))) \<subseteq> {length (conns (run evs init))})"
proof -
  let ?s = "run evs init"
  note inv = run_live [of evs]
  have "length (live ?s) \<le> 1" using inv by (rule at_most_one)
  moreover have "set (live ?s) \<subseteq> set_option (rtcConnection ?s)" using inv by auto
  moreover have "live (disconnectRTCConnection ?s) = []" using inv by (rule live_disconnect)
  moreover have "set (live (setupRTCConnection d out ?s)) \<subseteq> {length (conns ?s)}" if "truthy d"
    using live_setup [OF inv that, of out] by auto
  ultimately show ?thesis by simp
qed

theorem at_most_one_live_connection_witness:
  "truthy (Some ''abc123'') \<and>
   live (run [Negotiate (Some ''abc123'') SetupOk, Settle 0 (Offer ''v=0'')] init) = [0] \<and>
   set (live (run [Negotiate (Some ''abc123'') SetupOk, Settle 0 (Offer ''v=0''),
                   Negotiate (Some ''abc123'') SetupOk] init)) \<subseteq> {1} \<and>
   live (run [Negotiate (Some ''abc123'') SetupOk, Settle 0 (Offer ''v=0''),
              Negotiate (Some ''abc123'') SetupOk] init) = [1]"
proof -
  let ?evs = "[Negotiate (Some ''abc123'') SetupOk, Settle 0 (Offer ''v=0'')]"
  have t: "truthy (Some ''abc123'')" by (simp add: truthy_def)
  have n: "length (conns (run ?evs init)) = 1" by (simp add: model_defs)
  have l0: "live (run ?evs init) = [0]" by (simp add: model_defs)
  have r: "run (?evs @ [Negotiate (Some ''abc123'') SetupOk]) init
             = step (Negotiate (Some ''abc123'') SetupOk) (run ?evs init)"
    by (rule run_snoc)
  have "set (live (run (?evs @ [Negotiate (Some ''abc123'') SetupOk]) init)) \<subseteq> {1}"
    using at_most_one_live_connection [of ?evs "Some ''abc123''" SetupOk] t n unfolding r by simp
  moreover have "live (run (?evs @ [Negotiate (Some ''abc123'') SetupOk]) init) = [1]"
    by (simp add: model_defs)
  ultimately show ?thesis using t l0 by simp
qed

section \<open>ICE connection state events\<close>

lemma oniceconnectionstatechange_status:
  "status (oniceconnectionstatechange c s) =
     (if iceConnectionState (conns s ! c) \<in> {Connected, Completed} then None else status s)"
  by (simp add: oniceconnectionstatechange_def Let_def)

lemma oniceconnectionstatechange_error:
  "error (oniceconnectionstatechange c s) =
     (if iceConnectionState (conns s ! c) \<in> {Failed, Disconnected}
      then Some ''Connection failed'' else error s)"
  by (auto simp: oniceconnectionstatechange_def Let_def)

lemma step_ice_status:
  "c < length (conns s) \<Longrightarrow> handlers (conns s ! c) \<Longrightarrow>
   status (step (IceConnectionStateChange c st) s) =
     (if st \<in> {Connected, Completed} then None else status s)"
  by (simp add: oniceconnectionstatechange_status set_pc_nth set_pc_fields)

lemma step_ice_error:
  "c < length (conns s) \<Longrightarrow> handlers (conns s ! c) \<Longrightarrow>
   error (step (IceConnectionStateChange c st) s) =
     (if st \<in> {Failed, Disconnected} then Some ''Connection failed'' else error s)"
  by (simp add: oniceconnectionstatechange_error set_pc_nth set_pc_fields)

lemma step_ice_frame:
  "attempts (step (IceConnectionStateChange c st) s) = attempts s"
  "rtcConnection (step (IceConnectionStateChange c st) s) = rtcConnection s"
  "streams (step (IceConnectionStateChange c st) s) = streams s"
  "reconnecting (step (IceConnectionStateChange c st) s) = reconnecting s"
  "now (step (IceConnectionStateChange c st) s) = now s"
  "length (conns (step (IceConnectionStateChange c st) s)) = length (conns s)"
  by (simp_all add: Let_def oniceconnectionstatechange_fields set_pc_fields)

lemma step_ice_live: "live (step (IceConnectionStateChange c st) s) = live s"
proof -
  have "live (set_pc c (\<lambda>p. p\<lparr>iceConnectionState := st\<rparr>) s) = live s"
    by (rule live_set_pc) simp
  then show ?thesis
    by (simp add: Let_def live_conns [of "oniceconnectionstatechange c t" t for t]
        oniceconnectionstatechange_fields)
qed

text \<open>
  Claim C7 as stated fails: after a disconnected event has set the error, a connected
  event leaves that error in place (line 71 calls \<open>setStatus(null)\<close> only).
\<close>

theorem ice_connected_keeps_error:
  "error (run [Negotiate (Some ''abc123'') SetupOk,
               IceConnectionStateChange 0 Disconnected,
               IceConnectionStateChange 0 Connected] init) = Some ''Connection failed''"
  by (simp add: model_defs)

text \<open>
  Claim C7, as amended. The handler of an ICE-connection-state event that reports
  connected or completed clears the status message and leaves the error message as it
  is; for failed or disconnected it sets the error to \<open>Connection failed\<close> and leaves the
  status. In either case it starts nothing: the activations, the connection the ref
  holds, the set of live connections, the track registry and the reconnect flag stay.
\<close>

theorem ice_state_handler:
  "c < length (conns s) \<Longrightarrow> handlers (conns s ! c) \<Longrightarrow>
   (st \<in> {Connected, Completed} \<longrightarrow>
      status (step (IceConnectionStateChange c st) s) = None \<and>
      error (step (IceConnectionStateChange c st) s) = error s) \<and>
   (st \<in> {Failed, Disconnected} \<longrightarrow>
      error (step (IceConnectionStateChange c st) s) = Some ''Connection failed'' \<and>
      status (step (IceConnectionStateChange c st) s) = status s) \<and>
   attempts (step (IceConnectionStateChange c st) s) = attempts s \<and>
   rtcConnection (step (IceConnectionStateChange c st) s) = rtcConnection s \<and>
   live (step (IceConnectionStateChange c st) s) = live s \<and>
   streams (step (IceConnectionStateChange c st) s) = streams s \<and>
   reconnecting (step (IceConnectionStateChange c st) s) = reconnecting s"
  using step_ice_status [of c s st] step_ice_error [of c s st]
  by (auto simp only: step_ice_frame step_ice_live split: if_splits)

theorem ice_state_handler_witness:
  "status (run [Negotiate (Some ''abc123'') SetupOk,
                IceConnectionStateChange 0 Disconnected,
                IceConnectionStateChange 0 Connected] init) = None \<and>
   error (run [Negotiate (Some ''abc123'') SetupOk,
               IceConnectionStateChange 0 Disconnected,
               IceConnectionStateChange 0 Connected] init)
     = error (run [Negotiate (Some ''abc123'') SetupOk,
                   IceConnectionStateChange 0 Disconnected] init) \<and>
   error (run [Negotiate (Some ''abc123'') SetupOk,
               IceConnectionStateChange 0 Disconnected] init) = Some ''Connection failed'' \<and>
   status (run [Negotiate (Some ''abc123'') SetupOk,
                IceConnectionStateChange 0 Disconnected] init) = Some ''Creating offer...''"
proof -
  let ?p = "run [Negotiate (Some ''abc123'') SetupOk] init"
  let ?q = "run [Negotiate (Some ''abc123'') SetupOk, IceConnectionStateChange 0 Disconnected] init"
  have c0: "0 < length (conns ?p)" and h0: "handlers (conns ?p ! 0)"
    and st0: "status ?p = Some ''Creating offer...''"
    by (simp_all add: model_defs)
  have c1: "0 < length (conns ?q)" and h1: "handlers (conns ?q ! 0)"
    by (simp_all add: model_defs)
  have r1: "?q = step (IceConnectionStateChange 0 Disconnected) ?p"
    by (simp add: run_def)
  have r2: "run [Negotiate (Some ''abc123'') SetupOk, IceConnectionStateChange 0 Disconnected,
                 IceConnectionStateChange 0 Connected] init
              = step (IceConnectionStateChange 0 Connected) ?q"
    by (simp add: run_def)
  show ?thesis
    unfolding r2
    using ice_state_handler [OF c1 h1, of Connected] ice_state_handler [OF c0 h0, of Disconnected]
      st0
    unfolding r1 by simp
qed

section \<open>The outcome of an attempt\<close>

lemma throw_fields:
  "error (throw a e s) = Some (''Failed to connect: '' @ e)"
  "reconnecting (throw a e s) = False"
  "status (throw a e s) = status s"
  by (simp_all add: throw_def catch_clause_fields set_attempt_fields)

lemma throw_phase: "a < length (attempts s) \<Longrightarrow> phase (attempts (throw a e s) ! a) = Caught"
  by (simp add: throw_def catch_clause_fields set_attempt_nth)

lemma relay_error_thrown:
  "truthy (resp_error r) \<Longrightarrow>
   after_callAthena a (Some r) s = throw a (''Error: '' @ the (resp_error r)) s"
  by (auto simp: after_callAthena_def String_Error_def truthy_def split: option.splits)

lemma relay_malformed_thrown:
  "\<not> truthy (resp_error r) \<Longrightarrow> \<not> truthy (resp_sdp r) \<or> \<not> truthy (resp_type r) \<Longrightarrow>
   after_callAthena a (Some r) s = throw a ''Error: Invalid response from webrtcd'' s"
  by (auto simp: after_callAthena_def String_Error_def)

lemma relay_null_thrown:
  "after_callAthena a None s = throw a ''Error: Unknown error from Athena'' s"
  by (simp add: after_callAthena_def String_Error_def)

lemma settle_response:
  "a < length (attempts s) \<Longrightarrow> phase (attempts s ! a) = AwaitCallAthena \<Longrightarrow>
   resume a (Response resp) s = after_callAthena a resp s"
  by (simp add: resume_def)

lemma settle_rejected:
  "a < length (attempts s) \<Longrightarrow>
   phase (attempts s ! a) \<in> {AwaitCreateOffer, AwaitSetLocalDescription, AwaitCallAthena,
                             AwaitSetRemoteDescription} \<Longrightarrow>
   resume a (Rejected e) s = throw a e s"
  by (auto simp: resume_def)

lemma settle_remote:
  "a < length (attempts s) \<Longrightarrow> phase (attempts s ! a) = AwaitSetRemoteDescription \<Longrightarrow>
   resume a RemoteDescriptionSet s = after_setRemoteDescription a s"
  by (simp add: resume_def)

lemma after_ice_wait_phase:
  "a < length (attempts s) \<Longrightarrow> phase (attempts (after_ice_wait a s) ! a) = AwaitCallAthena"
  by (simp add: after_ice_wait_def Let_def set_attempt_nth)

lemma ice_wait_phase:
  "a < length (attempts s) \<Longrightarrow>
   phase (attempts (ice_wait a s) ! a) \<in> {AwaitIceGathering, AwaitCallAthena}"
  by (simp add: ice_wait_def Let_def resolve_def after_ice_wait_phase set_attempt_nth
      set_attempt_fields)

lemma after_setRemoteDescription_fields:
  "status (after_setRemoteDescription a s) = None"
  "reconnecting (after_setRemoteDescription a s) = False"
  "error (after_setRemoteDescription a s) = error s"
  by (simp_all add: after_setRemoteDescription_def set_attempt_fields)

lemma after_setRemoteDescription_phase:
  "a < length (attempts s) \<Longrightarrow>
   phase (attempts (after_setRemoteDescription a s) ! a) = Returned"
  by (simp add: after_setRemoteDescription_def set_attempt_nth)

text \<open>A settlement ends in the \<open>catch\<close> clause only through \<open>throw\<close>.\<close>

lemma resume_caught:
  assumes "a < length (attempts s)" and "phase (attempts s ! a) \<noteq> Caught"
    and "phase (attempts (resume a r s) ! a) = Caught"
  shows "\<exists>e. resume a r s = throw a e s"
proof (cases "phase (attempts s ! a)")
  case AwaitCreateOffer
  with assms show ?thesis
    by (cases r) (auto simp: resume_def set_attempt_nth)
next
  case AwaitSetLocalDescription
  with assms ice_wait_phase [of a s] show ?thesis
    by (cases r) (auto simp: resume_def)
next
  case AwaitIceGathering
  with assms show ?thesis by (simp add: resume_def)
next
  case AwaitCallAthena
  show ?thesis
  proof (cases r)
    case (Response resp)
    with assms AwaitCallAthena show ?thesis
      by (auto simp: resume_def after_callAthena_def set_attempt_nth split: option.splits if_splits)
  qed (use assms AwaitCallAthena in \<open>auto simp: resume_def\<close>)
next
  case AwaitSetRemoteDescription
  with assms show ?thesis
    by (cases r) (auto simp: resume_def after_setRemoteDescription_phase)
next
  case Returned
  with assms show ?thesis by (simp add: resume_def)
next
  case Caught
  with assms show ?thesis by simp
qed

text \<open>
  Claim C4 as stated fails: for the relay response \<open>{error: "device offline"}\<close> the error
  message is not the relay's text verbatim. Line 117 wraps it in an \<open>Error\<close>, and line 135
  prefixes \<open>String(err)\<close> with \<open>Failed to connect: \<close>.
\<close>

theorem relay_error_not_verbatim:
  "error (run [Negotiate (Some ''abc123'') SetupOk, Settle 0 (Offer ''v=0''),
               Settle 0 LocalDescriptionSet, IceGatheringStateChange 0 Complete,
               Settle 0 (Response (Some \<lparr>resp_sdp = None, resp_type = None,
                                          resp_error = Some ''device offline''\<rparr>))] init)
     = Some ''Failed to connect: Error: device offline'' \<and>
   error (run [Negotiate (Some ''abc123'') SetupOk, Settle 0 (Offer ''v=0''),
               Settle 0 LocalDescriptionSet, IceGatheringStateChange 0 Complete,
               Settle 0 (Response (Some \<lparr>resp_sdp = None, resp_type = None,
                                          resp_error = Some ''device offline''\<rparr>))] init)
     \<noteq> Some ''device offline''"
  by (simp add: model_defs)

text \<open>
  Claim C4, as amended. If the relay response has a non-empty error field, the
  activation ends in its \<open>catch\<close> clause and the error message is the relay's error text
  behind the prefix \<open>Failed to connect: Error: \<close>; the reconnect flag is cleared.
\<close>

theorem relay_error_surfaced:
  "a < length (attempts s) \<Longrightarrow> phase (attempts s ! a) = AwaitCallAthena \<Longrightarrow>
   truthy (resp_error r) \<Longrightarrow>
   error (step (Settle a (Response (Some r))) s)
     = Some (''Failed to connect: Error: '' @ the (resp_error r)) \<and>
   phase (attempts (step (Settle a (Response (Some r))) s) ! a) = Caught \<and>
   \<not> reconnecting (step (Settle a (Response (Some r))) s)"
  by (simp add: settle_response relay_error_thrown throw_fields throw_phase)

theorem relay_error_surfaced_witness:
  "truthy (Some ''device offline'') \<and>
   phase (attempts (run [Negotiate (Some ''abc123'') SetupOk, Settle 0 (Offer ''v=0''),
                         Settle 0 LocalDescriptionSet, IceGatheringStateChange 0 Complete]
                        init) ! 0) = AwaitCallAthena \<and>
   error (step (Settle 0 (Response (Some \<lparr>resp_sdp = Some ''v=0 answer'',
                                           resp_type = Some ''answer'',
                                           resp_error = Some ''device offline''\<rparr>)))
            (run [Negotiate (Some ''abc123'') SetupOk, Settle 0 (Offer ''v=0''),
                  Settle 0 LocalDescriptionSet, IceGatheringStateChange 0 Complete] init))
     = Some ''Failed to connect: Error: device offline''"
proof -
  let ?s = "run [Negotiate (Some ''abc123'') SetupOk, Settle 0 (Offer ''v=0''),
                 Settle 0 LocalDescriptionSet, IceGatheringStateChange 0 Complete] init"
  let ?r = "\<lparr>resp_sdp = Some ''v=0 answer'', resp_type = Some ''answer'',
             resp_error = Some ''device offline''\<rparr>"
  have a: "0 < length (attempts ?s)" and p: "phase (attempts ?s ! 0) = AwaitCallAthena"
    by (simp_all add: model_defs)
  have t: "truthy (resp_error ?r)" by (simp add: truthy_def)
  show ?thesis using relay_error_surfaced [OF a p t] p t by simp
qed

text \<open>
  Claim C5 as stated fails: a response without \<open>sdp\<close> whose error field is non-empty is
  reported with the relay's error text, not as an invalid response, because the error
  field is tested first (line 116 before line 124).
\<close>

theorem relay_error_wins_over_malformed:
  "error (run [Negotiate (Some ''abc123'') SetupOk, Settle 0 (Offer ''v=0''),
               Settle 0 LocalDescriptionSet, IceGatheringStateChange 0 Complete,
               Settle 0 (Response (Some \<lparr>resp_sdp = None, resp_type = Some ''answer'',
                                          resp_error = Some ''camera busy''\<rparr>))] init)
     = Some ''Failed to connect: Error: camera busy'' \<and>
   error (run [Negotiate (Some ''abc123'') SetupOk, Settle 0 (Offer ''v=0''),
               Settle 0 LocalDescriptionSet, IceGatheringStateChange 0 Complete,
               Settle 0 (Response (Some \<lparr>resp_sdp = None, resp_type = Some ''answer'',
                                          resp_error = Some ''camera busy''\<rparr>))] init)
     \<noteq> Some ''Failed to connect: Error: Invalid response from webrtcd''"
  by (simp add: model_defs)

text \<open>
  Claim C5, as amended. If the relay response is an object whose error field is absent
  or empty and whose \<open>sdp\<close> or \<open>type\<close> is missing or empty, the activation ends in its
  \<open>catch\<close> clause with the error message
  \<open>Failed to connect: Error: Invalid response from webrtcd\<close> and the reconnect flag
  cleared. With a non-empty error field it is the relay's error text that is reported
  instead, whether or not \<open>sdp\<close> and \<open>type\<close> are there. A null or undefined response
  carries neither \<open>sdp\<close> nor \<open>type\<close> and is reported as
  \<open>Failed to connect: Error: Unknown error from Athena\<close>.
\<close>

theorem malformed_response_reported:
  "a < length (attempts s) \<Longrightarrow> phase (attempts s ! a) = AwaitCallAthena \<Longrightarrow>
   (\<not> truthy (resp_error r) \<and> (\<not> truthy (resp_sdp r) \<or> \<not> truthy (resp_type r)) \<longrightarrow>
      error (step (Settle a (Response (Some r))) s)
        = Some ''Failed to connect: Error: Invalid response from webrtcd'' \<and>
      phase (attempts (step (Settle a (Response (Some r))) s) ! a) = Caught \<and>
      \<not> reconnecting (step (Settle a (Response (Some r))) s)) \<and>
   (truthy (resp_error r) \<longrightarrow>
      error (step (Settle a (Response (Some r))) s)
        = Some (''Failed to connect: Error: '' @ the (resp_error r)) \<and>
      phase (attempts (step (Settle a (Response (Some r))) s) ! a) = Caught \<and>
      \<not> reconnecting (step (Settle a (Response (Some r))) s)) \<and>
   error (step (Settle a (Response None)) s)
     = Some ''Failed to connect: Error: Unknown error from Athena'' \<and>
   phase (attempts (step (Settle a (Response None)) s) ! a) = Caught \<and>
   \<not> reconnecting (step (Settle a (Response None)) s)"
  by (cases "truthy (resp_error r)")
     (simp_all add: settle_response relay_error_thrown relay_malformed_thrown relay_null_thrown
        throw_fields throw_phase)

theorem malformed_response_reported_witness:
  "\<not> truthy None \<and> truthy (Some ''camera busy'') \<and>
   phase (attempts (run [Negotiate (Some ''abc123'') SetupOk, Settle 0 (Offer ''v=0''),
                         Settle 0 LocalDescriptionSet, IceGatheringStateChange 0 Complete]
                        init) ! 0) = AwaitCallAthena \<and>
   error (step (Settle 0 (Response (Some \<lparr>resp_sdp = None, resp_type = Some ''answer'',
                                           resp_error = None\<rparr>)))
            (run [Negotiate (Some ''abc123'') SetupOk, Settle 0 (Offer ''v=0''),
                  Settle 0 LocalDescriptionSet, IceGatheringStateChange 0 Complete] init))
     = Some ''Failed to connect: Error: Invalid response from webrtcd'' \<and>
   error (step (Settle 0 (Response (Some \<lparr>resp_sdp = Some ''v=0 answer'',
                                           resp_type = Some ''answer'',
                                           resp_error = Some ''camera busy''\<rparr>)))
            (run [Negotiate (Some ''abc123'') SetupOk, Settle 0 (Offer ''v=0''),
                  Settle 0 LocalDescriptionSet, IceGatheringStateChange 0 Complete] init))
     = Some ''Failed to connect: Error: camera busy'' \<and>
   error (step (Settle 0 (Response (Some \<lparr>resp_sdp = Some ''v=0 answer'', resp_type = Some [],
                                           resp_error = Some ''camera busy''\<rparr>)))
            (run [Negotiate (Some ''abc123'') SetupOk, Settle 0 (Offer ''v=0''),
                  Settle 0 LocalDescriptionSet, IceGatheringStateChange 0 Complete] init))
     = Some ''Failed to connect: Error: camera busy'' \<and>
   error (step (Settle 0 (Response None))
            (run [Negotiate (Some ''abc123'') SetupOk, Settle 0 (Offer ''v=0''),
                  Settle 0 LocalDescriptionSet, IceGatheringStateChange 0 Complete] init))
     = Some ''Failed to connect: Error: Unknown error from Athena''"
proof -
  let ?s = "run [Negotiate (Some ''abc123'') SetupOk, Settle 0 (Offer ''v=0''),
                 Settle 0 LocalDescriptionSet, IceGatheringStateChange 0 Complete] init"
  let ?r = "\<lparr>resp_sdp = None, resp_type = Some ''answer'', resp_error = None\<rparr>"
  let ?q = "\<lparr>resp_sdp = Some ''v=0 answer'', resp_type = Some ''answer'',
             resp_error = Some ''camera busy''\<rparr>"
  let ?u = "\<lparr>resp_sdp = Some ''v=0 answer'', resp_type = Some [],
             resp_error = Some ''camera busy''\<rparr>"
  have a: "0 < length (attempts ?s)" and p: "phase (attempts ?s ! 0) = AwaitCallAthena"
    by (simp_all add: model_defs)
  have m: "\<not> truthy (resp_error ?r) \<and> (\<not> truthy (resp_sdp ?r) \<or> \<not> truthy (resp_type ?r))"
    and f: "truthy (resp_error ?q)" and g: "truthy (resp_error ?u)"
    and t: "\<not> truthy None" "truthy (Some ''camera busy'')"
    by (simp_all add: truthy_def)
  show ?thesis
    using malformed_response_reported [OF a p, of ?r] malformed_response_reported [OF a p, of ?q]
      malformed_response_reported [OF a p, of ?u] p m f g t
    by simp
qed

lemma setup_constructor_throws:
  "truthy d \<Longrightarrow>
   error (setupRTCConnection d (ConstructorThrows e) s) = Some (''Failed to connect: '' @ e) \<and>
   \<not> reconnecting (setupRTCConnection d (ConstructorThrows e) s) \<and>
   status (setupRTCConnection d (ConstructorThrows e) s) = Some ''Initiating connection...''"
  by (simp add: setupRTCConnection_def Let_def catch_clause_def)

lemma setup_addTransceiver_throws:
  "truthy d \<Longrightarrow>
   error (setupRTCConnection d (AddTransceiverThrows e) s) = Some (''Failed to connect: '' @ e) \<and>
   \<not> reconnecting (setupRTCConnection d (AddTransceiverThrows e) s) \<and>
   status (setupRTCConnection d (AddTransceiverThrows e) s) = Some ''Initiating connection...''"
  by (simp add: setupRTCConnection_def Let_def catch_clause_def)

text \<open>The settlements that end in the \<open>catch\<close> clause.\<close>

lemma resume_caught_kind:
  assumes "a < length (attempts s)" and "phase (attempts s ! a) \<noteq> Caught"
    and "phase (attempts (resume a x s) ! a) = Caught"
  shows "(\<exists>e. x = Rejected e) \<or>
         (\<exists>resp. x = Response resp \<and>
            (resp = None \<or> truthy (resp_error (the resp)) \<or> \<not> truthy (resp_sdp (the resp))
               \<or> \<not> truthy (resp_type (the resp))))"
proof (cases x)
  case (Rejected e)
  then show ?thesis by simp
next
  case (Offer sdp)
  with assms show ?thesis
    by (auto simp: resume_def set_attempt_nth split: phase.splits)
next
  case LocalDescriptionSet
  with assms ice_wait_phase [of a s] show ?thesis
    by (auto simp: resume_def split: phase.splits)
next
  case (Response resp)
  show ?thesis
  proof (cases "phase (attempts s ! a) = AwaitCallAthena")
    case True
    with assms Response show ?thesis
      by (auto simp: resume_def after_callAthena_def set_attempt_nth
          split: option.splits if_splits)
  next
    case False
    with assms Response show ?thesis by (auto simp: resume_def split: phase.splits)
  qed
next
  case RemoteDescriptionSet
  with assms show ?thesis
    by (auto simp: resume_def after_setRemoteDescription_phase split: phase.splits)
qed

text \<open>
  Claim C6 as stated fails: after a failed attempt the status message is not cleared.
  The \<open>catch\<close> clause calls \<open>setError\<close> and \<open>setReconnecting\<close> only, so the status of
  the last step reached stays.
\<close>

theorem failed_attempt_keeps_status:
  "phase (attempts (run [Negotiate (Some ''abc123'') SetupOk, Settle 0 (Offer ''v=0''),
                         Settle 0 LocalDescriptionSet, IceGatheringStateChange 0 Complete,
                         Settle 0 (Rejected ''TypeError: Failed to fetch'')] init) ! 0) = Caught \<and>
   status (run [Negotiate (Some ''abc123'') SetupOk, Settle 0 (Offer ''v=0''),
                Settle 0 LocalDescriptionSet, IceGatheringStateChange 0 Complete,
                Settle 0 (Rejected ''TypeError: Failed to fetch'')] init)
     = Some ''Sending offer via Athena...''"
  by (simp add: model_defs)

text \<open>
  Claim C6, as amended. Whenever an attempt fails, the error message is set to
  \<open>Failed to connect: \<close> followed by the cause, the reconnect flag is cleared, and the
  status message is left as it was. The cause is \<open>String(err)\<close> of the rejection for a
  rejected \<open>createOffer\<close>, \<open>setLocalDescription\<close>, \<open>callAthena\<close> or
  \<open>setRemoteDescription\<close>; \<open>Error: \<close> and the relay's error text for a non-empty error
  field; \<open>Error: Invalid response from webrtcd\<close> for a response without error whose
  \<open>sdp\<close> or \<open>type\<close> is missing; \<open>Error: Unknown error from Athena\<close> for a null response;
  and \<open>String(err)\<close> of the exception when the constructor or \<open>addTransceiver\<close> throws in
  the first segment, where the status left is \<open>Initiating connection...\<close>. No other
  settlement takes an activation into its \<open>catch\<close> clause.
\<close>

theorem failed_attempt_state:
  "(a < length (attempts s) \<and>
    phase (attempts s ! a) \<in> {AwaitCreateOffer, AwaitSetLocalDescription, AwaitCallAthena,
                              AwaitSetRemoteDescription} \<longrightarrow>
      phase (attempts (step (Settle a (Rejected e)) s) ! a) = Caught \<and>
      error (step (Settle a (Rejected e)) s) = Some (''Failed to connect: '' @ e) \<and>
      \<not> reconnecting (step (Settle a (Rejected e)) s) \<and>
      status (step (Settle a (Rejected e)) s) = status s) \<and>
   (a < length (attempts s) \<and> phase (attempts s ! a) = AwaitCallAthena \<and>
    truthy (resp_error r) \<longrightarrow>
      phase (attempts (step (Settle a (Response (Some r))) s) ! a) = Caught \<and>
      error (step (Settle a (Response (Some r))) s)
        = Some (''Failed to connect: Error: '' @ the (resp_error r)) \<and>
      \<not> reconnecting (step (Settle a (Response (Some r))) s) \<and>
      status (step (Settle a (Response (Some r))) s) = status s) \<and>
   (a < length (attempts s) \<and> phase (attempts s ! a) = AwaitCallAthena \<and>
    \<not> truthy (resp_error r) \<and> (\<not> truthy (resp_sdp r) \<or> \<not> truthy (resp_type r)) \<longrightarrow>
      phase (attempts (step (Settle a (Response (Some r))) s) ! a) = Caught \<and>
      error (step (Settle a (Response (Some r))) s)
        = Some ''Failed to connect: Error: Invalid response from webrtcd'' \<and>
      \<not> reconnecting (step (Settle a (Response (Some r))) s) \<and>
      status (step (Settle a (Response (Some r))) s) = status s) \<and>
   (a < length (attempts s) \<and> phase (attempts s ! a) = AwaitCallAthena \<longrightarrow>
      phase (attempts (step (Settle a (Response None)) s) ! a) = Caught \<and>
      error (step (Settle a (Response None)) s)
        = Some ''Failed to connect: Error: Unknown error from Athena'' \<and>
      \<not> reconnecting (step (Settle a (Response None)) s) \<and>
      status (step (Settle a (Response None)) s) = status s) \<and>
   (truthy d \<longrightarrow>
      error (step (Negotiate d (ConstructorThrows e)) s) = Some (''Failed to connect: '' @ e) \<and>
      \<not> reconnecting (step (Negotiate d (ConstructorThrows e)) s) \<and>
      status (step (Negotiate d (ConstructorThrows e)) s) = Some ''Initiating connection...'' \<and>
      error (step (Negotiate d (AddTransceiverThrows e)) s) = Some (''Failed to connect: '' @ e) \<and>
      \<not> reconnecting (step (Negotiate d (AddTransceiverThrows e)) s) \<and>
      status (step (Negotiate d (AddTransceiverThrows e)) s)
        = Some ''Initiating connection...'') \<and>
   (a < length (attempts s) \<and> phase (attempts s ! a) \<noteq> Caught \<and>
    phase (attempts (step (Settle a x) s) ! a) = Caught \<longrightarrow>
      ((\<exists>e. x = Rejected e) \<or>
       (\<exists>resp. x = Response resp \<and>
          (resp = None \<or> truthy (resp_error (the resp)) \<or> \<not> truthy (resp_sdp (the resp))
             \<or> \<not> truthy (resp_type (the resp))))) \<and>
      \<not> reconnecting (step (Settle a x) s) \<and>
      status (step (Settle a x) s) = status s)"
proof (intro conjI impI)
  assume h: "a < length (attempts s) \<and>
    phase (attempts s ! a) \<in> {AwaitCreateOffer, AwaitSetLocalDescription, AwaitCallAthena,
                              AwaitSetRemoteDescription}"
  then have r: "step (Settle a (Rejected e)) s = throw a e s"
    by (simp add: settle_rejected)
  show "phase (attempts (step (Settle a (Rejected e)) s) ! a) = Caught"
    unfolding r using h by (simp add: throw_phase)
  show "error (step (Settle a (Rejected e)) s) = Some (''Failed to connect: '' @ e)"
    unfolding r by (simp add: throw_fields)
  show "\<not> reconnecting (step (Settle a (Rejected e)) s)"
    unfolding r by (simp add: throw_fields)
  show "status (step (Settle a (Rejected e)) s) = status s"
    unfolding r by (simp add: throw_fields)
next
  assume h: "a < length (attempts s) \<and> phase (attempts s ! a) = AwaitCallAthena \<and>
             truthy (resp_error r)"
  then have r: "step (Settle a (Response (Some r))) s
                  = throw a (''Error: '' @ the (resp_error r)) s"
    by (simp add: settle_response relay_error_thrown)
  show "phase (attempts (step (Settle a (Response (Some r))) s) ! a) = Caught"
    unfolding r using h by (simp add: throw_phase)
  show "error (step (Settle a (Response (Some r))) s)
          = Some (''Failed to connect: Error: '' @ the (resp_error r))"
    unfolding r by (simp add: throw_fields)
  show "\<not> reconnecting (step (Settle a (Response (Some r))) s)"
    unfolding r by (simp add: throw_fields)
  show "status (step (Settle a (Response (Some r))) s) = status s"
    unfolding r by (simp add: throw_fields)
next
  assume h: "a < length (attempts s) \<and> phase (attempts s ! a) = AwaitCallAthena \<and>
    \<not> truthy (resp_error r) \<and> (\<not> truthy (resp_sdp r) \<or> \<not> truthy (resp_type r))"
  then have r: "step (Settle a (Response (Some r))) s
                  = throw a ''Error: Invalid response from webrtcd'' s"
    by (simp add: settle_response relay_malformed_thrown)
  show "phase (attempts (step (Settle a (Response (Some r))) s) ! a) = Caught"
    unfolding r using h by (simp add: throw_phase)
  show "error (step (Settle a (Response (Some r))) s)
          = Some ''Failed to connect: Error: Invalid response from webrtcd''"
    unfolding r by (simp add: throw_fields)
  show "\<not> reconnecting (step (Settle a (Response (Some r))) s)"
    unfolding r by (simp add: throw_fields)
  show "status (step (Settle a (Response (Some r))) s) = status s"
    unfolding r by (simp add: throw_fields)
next
  assume h: "a < length (attempts s) \<and> phase (attempts s ! a) = AwaitCallAthena"
  then have r: "step (Settle a (Response None)) s
                  = throw a ''Error: Unknown error from Athena'' s"
    by (simp add: settle_response relay_null_thrown)
  show "phase (attempts (step (Settle a (Response None)) s) ! a) = Caught"
    unfolding r using h by (simp add: throw_phase)
  show "error (step (Settle a (Response None)) s)
          = Some ''Failed to connect: Error: Unknown error from Athena''"
    unfolding r by (simp add: throw_fields)
  show "\<not> reconnecting (step (Settle a (Response None)) s)"
    unfolding r by (simp add: throw_fields)
  show "status (step (Settle a (Response None)) s) = status s"
    unfolding r by (simp add: throw_fields)
next
  assume t: "truthy d"
  note c = setup_constructor_throws [OF t, of e s] and b = setup_addTransceiver_throws [OF t, of e s]
  show "error (step (Negotiate d (ConstructorThrows e)) s) = Some (''Failed to connect: '' @ e)"
    using c by simp
  show "\<not> reconnecting (step (Negotiate d (ConstructorThrows e)) s)" using c by simp
  show "status (step (Negotiate d (ConstructorThrows e)) s) = Some ''Initiating connection...''"
    using c by simp
  show "error (step (Negotiate d (AddTransceiverThrows e)) s) = Some (''Failed to connect: '' @ e)"
    using b by simp
  show "\<not> reconnecting (step (Negotiate d (AddTransceiverThrows e)) s)" using b by simp
  show "status (step (Negotiate d (AddTransceiverThrows e)) s) = Some ''Initiating connection...''"
    using b by simp
next
  assume h: "a < length (attempts s) \<and> phase (attempts s ! a) \<noteq> Caught \<and>
             phase (attempts (step (Settle a x) s) ! a) = Caught"
  then have a: "a < length (attempts s)" and p: "phase (attempts s ! a) \<noteq> Caught"
    and q: "phase (attempts (resume a x s) ! a) = Caught"
    by simp_all
  show "(\<exists>e. x = Rejected e) \<or>
        (\<exists>resp. x = Response resp \<and>
           (resp = None \<or> truthy (resp_error (the resp)) \<or> \<not> truthy (resp_sdp (the resp))
              \<or> \<not> truthy (resp_type (the resp))))"
    using a p q by (rule resume_caught_kind)
  from resume_caught [OF a p q] obtain c where c: "resume a x s = throw a c s" ..
  show "\<not> reconnecting (step (Settle a x) s)" using c by (simp add: throw_fields)
  show "status (step (Settle a x) s) = status s" using c by (simp add: throw_fields)
qed

theorem failed_attempt_state_witness:
  "phase (attempts (run [Negotiate (Some ''abc123'') SetupOk, Settle 0 (Offer ''v=0''),
                         Settle 0 LocalDescriptionSet, IceGatheringStateChange 0 Complete]
                        init) ! 0) = AwaitCallAthena \<and>
   truthy (Some ''device offline'') \<and> \<not> truthy None \<and> truthy (Some ''abc123'') \<and>
   error (run [Negotiate (Some ''abc123'') SetupOk, Settle 0 (Offer ''v=0''),
               Settle 0 LocalDescriptionSet, IceGatheringStateChange 0 Complete,
               Settle 0 (Rejected ''TypeError: Failed to fetch'')] init)
     = Some ''Failed to connect: TypeError: Failed to fetch'' \<and>
   status (run [Negotiate (Some ''abc123'') SetupOk, Settle 0 (Offer ''v=0''),
                Settle 0 LocalDescriptionSet, IceGatheringStateChange 0 Complete,
                Settle 0 (Rejected ''TypeError: Failed to fetch'')] init)
     = Some ''Sending offer via Athena...'' \<and>
   \<not> reconnecting (run [Negotiate (Some ''abc123'') SetupOk, Settle 0 (Offer ''v=0''),
                        Settle 0 LocalDescriptionSet, IceGatheringStateChange 0 Complete,
                        Settle 0 (Rejected ''TypeError: Failed to fetch'')] init) \<and>
   phase (attempts (run [Negotiate (Some ''abc123'') SetupOk, Settle 0 (Offer ''v=0''),
                         Settle 0 LocalDescriptionSet, IceGatheringStateChange 0 Complete,
                         Settle 0 (Rejected ''TypeError: Failed to fetch'')] init) ! 0)
     = Caught \<and>
   error (run [Negotiate (Some ''abc123'') SetupOk, Settle 0 (Offer ''v=0''),
               Settle 0 LocalDescriptionSet, IceGatheringStateChange 0 Complete,
               Settle 0 (Response (Some \<lparr>resp_sdp = None, resp_type = None,
                                          resp_error = Some ''device offline''\<rparr>))] init)
     = Some ''Failed to connect: Error: device offline'' \<and>
   error (run [Negotiate (Some ''abc123'') SetupOk, Settle 0 (Offer ''v=0''),
               Settle 0 LocalDescriptionSet, IceGatheringStateChange 0 Complete,
               Settle 0 (Response (Some \<lparr>resp_sdp = Some ''v=0 answer'', resp_type = None,
                                          resp_error = None\<rparr>))] init)
     = Some ''Failed to connect: Error: Invalid response from webrtcd'' \<and>
   error (run [Negotiate (Some ''abc123'') SetupOk, Settle 0 (Offer ''v=0''),
               Settle 0 LocalDescriptionSet, IceGatheringStateChange 0 Complete,
               Settle 0 (Response None)] init)
     = Some ''Failed to connect: Error: Unknown error from Athena'' \<and>
   error (run [Negotiate (Some ''abc123'') SetupOk,
               Settle 0 (Rejected ''InvalidStateError: closed'')] init)
     = Some ''Failed to connect: InvalidStateError: closed'' \<and>
   status (run [Negotiate (Some ''abc123'') SetupOk,
                Settle 0 (Rejected ''InvalidStateError: closed'')] init)
     = Some ''Creating offer...'' \<and>
   error (run [Negotiate (Some ''abc123'') (ConstructorThrows ''NotSupportedError: no'')] init)
     = Some ''Failed to connect: NotSupportedError: no'' \<and>
   status (run [Negotiate (Some ''abc123'') (ConstructorThrows ''NotSupportedError: no'')] init)
     = Some ''Initiating connection...'' \<and>
   \<not> reconnecting
       (run [Negotiate (Some ''abc123'') (ConstructorThrows ''NotSupportedError: no'')] init) \<and>
   error (run [Negotiate (Some ''abc123'') (AddTransceiverThrows ''TypeError: kind'')] init)
     = Some ''Failed to connect: TypeError: kind''"
proof -
  let ?o = "run [Negotiate (Some ''abc123'') SetupOk] init"
  let ?s = "run [Negotiate (Some ''abc123'') SetupOk, Settle 0 (Offer ''v=0''),
                 Settle 0 LocalDescriptionSet, IceGatheringStateChange 0 Complete] init"
  let ?e = "\<lparr>resp_sdp = None, resp_type = None, resp_error = Some ''device offline''\<rparr>"
  let ?m = "\<lparr>resp_sdp = Some ''v=0 answer'', resp_type = None, resp_error = None\<rparr>"
  have a: "0 < length (attempts ?s)" and p: "phase (attempts ?s ! 0) = AwaitCallAthena"
    and st: "status ?s = Some ''Sending offer via Athena...''"
    by (simp_all add: model_defs)
  have ao: "0 < length (attempts ?o)" and po: "phase (attempts ?o ! 0) = AwaitCreateOffer"
    and sto: "status ?o = Some ''Creating offer...''"
    by (simp_all add: model_defs)
  have t: "truthy (Some ''device offline'')" "\<not> truthy None" "truthy (Some ''abc123'')"
    by (simp_all add: truthy_def)
  note w1 = failed_attempt_state [of 0 ?s "''TypeError: Failed to fetch''" ?e "Some ''abc123''"
              "Rejected ''TypeError: Failed to fetch''"]
  note w2 = failed_attempt_state [of 0 ?s "''TypeError: Failed to fetch''" ?m "Some ''abc123''"
              "Response None"]
  note w3 = failed_attempt_state [of 0 ?o "''InvalidStateError: closed''" ?e "Some ''abc123''"
              "Rejected ''InvalidStateError: closed''"]
  note w4 = failed_attempt_state [of 0 init "''NotSupportedError: no''" ?e "Some ''abc123''"
              "Response None"]
  note w5 = failed_attempt_state [of 0 init "''TypeError: kind''" ?e "Some ''abc123''"
              "Response None"]
  have 1: "phase (attempts (step (Settle 0 (Rejected ''TypeError: Failed to fetch'')) ?s) ! 0)
             = Caught"
    "error (step (Settle 0 (Rejected ''TypeError: Failed to fetch'')) ?s)
       = Some ''Failed to connect: TypeError: Failed to fetch''"
    "status (step (Settle 0 (Rejected ''TypeError: Failed to fetch'')) ?s)
       = Some ''Sending offer via Athena...''"
    using w1 a p st by simp_all
  have 2: "\<not> reconnecting (step (Settle 0 (Rejected ''TypeError: Failed to fetch'')) ?s)"
    using w1 a p 1(1) by simp
  have 3: "error (step (Settle 0 (Response (Some ?e))) ?s)
             = Some ''Failed to connect: Error: device offline''"
    using w1 a p t by (simp add: truthy_def)
  have 4: "error (step (Settle 0 (Response (Some ?m))) ?s)
             = Some ''Failed to connect: Error: Invalid response from webrtcd''"
    using w2 a p t by (simp add: truthy_def)
  have 5: "error (step (Settle 0 (Response None)) ?s)
             = Some ''Failed to connect: Error: Unknown error from Athena''"
    using w2 a p by simp
  have 6: "error (step (Settle 0 (Rejected ''InvalidStateError: closed'')) ?o)
             = Some ''Failed to connect: InvalidStateError: closed''"
    "status (step (Settle 0 (Rejected ''InvalidStateError: closed'')) ?o)
       = Some ''Creating offer...''"
    using w3 ao po sto by simp_all
  have 7: "error (step (Negotiate (Some ''abc123'') (ConstructorThrows ''NotSupportedError: no''))
                    init) = Some ''Failed to connect: NotSupportedError: no''"
    "status (step (Negotiate (Some ''abc123'') (ConstructorThrows ''NotSupportedError: no''))
               init) = Some ''Initiating connection...''"
    "\<not> reconnecting (step (Negotiate (Some ''abc123'')
                            (ConstructorThrows ''NotSupportedError: no'')) init)"
    using w4 t by simp_all
  have 8: "error (step (Negotiate (Some ''abc123'') (AddTransceiverThrows ''TypeError: kind''))
                    init) = Some ''Failed to connect: TypeError: kind''"
    using w5 t by simp
  show ?thesis
    using p t 1 2 3 4 5 6 7 8 by (simp add: run_def)
qed

section \<open>The error message is set in three places only\<close>

lemma after_ice_wait_error: "error (after_ice_wait a s) = error s"
  by (simp add: after_ice_wait_def Let_def set_attempt_fields)

lemma resolve_error: "error (resolve a s) = error s"
  by (simp add: resolve_def after_ice_wait_error)

lemma ice_wait_error: "error (ice_wait a s) = error s"
  by (simp add: ice_wait_def Let_def resolve_error set_attempt_fields)

lemma checkState_error: "error (checkState a s) = error s"
  by (simp add: checkState_def resolve_error set_attempt_fields)

lemma timeout_callback_error: "error (timeout_callback a s) = error s"
  by (simp add: timeout_callback_def resolve_error set_attempt_fields)

lemma dispatch_gathering_error: "error (dispatch_gathering c s) = error s"
  unfolding dispatch_gathering_def
  by (rule fold_preserves [where P = "\<lambda>t. error t = error s"])
     (simp_all add: checkState_error)

lemma fire_timers_error: "error (fire_timers s) = error s"
  unfolding fire_timers_def
  by (rule fold_preserves [where P = "\<lambda>t. error t = error s"])
     (simp_all add: timeout_callback_error split: option.split)

lemma resume_quiet_error: "quiet (Settle a r) \<Longrightarrow> error (resume a r s) = error s"
proof (cases r)
  case (Response resp)
  assume "quiet (Settle a r)"
  with Response obtain x where "resp = Some x" "\<not> truthy (resp_error x)"
    "truthy (resp_sdp x)" "truthy (resp_type x)"
    by (cases resp) auto
  with Response show ?thesis
    by (simp add: resume_def after_callAthena_def set_attempt_fields split: phase.split)
qed (simp_all add: resume_def set_attempt_fields ice_wait_error after_setRemoteDescription_fields
       split: phase.split)

lemma step_quiet_error: "quiet e \<Longrightarrow> error (step e s) = error s"
proof (cases e)
  case (IceConnectionStateChange c st)
  assume "quiet e"
  with IceConnectionStateChange show ?thesis
    by (auto simp: Let_def oniceconnectionstatechange_error set_pc_nth set_pc_fields)
next
  case (Settle a r)
  assume "quiet e"
  with Settle show ?thesis by (simp add: resume_quiet_error)
qed (simp_all add: disconnect_fields ontrack_fields dispatch_gathering_error set_pc_fields
       fire_timers_error)

lemma run_quiet_error: "list_all quiet evs \<Longrightarrow> error (run evs s) = error s"
  by (induction evs rule: rev_induct) (simp_all add: run_snoc step_quiet_error, simp add: run_def)

lemma run_Cons: "run (e # evs) s = run evs (step e s)"
  by (simp add: run_def)

lemma setup_ok_error: "truthy d \<Longrightarrow> error (setupRTCConnection d SetupOk s) = None"
  by (simp add: setupRTCConnection_def Let_def)

text \<open>
  Claim C8 as stated fails: when an ICE event reporting failed arrives during the
  attempt, the attempt still returns normally, with the error of that event in place.
  Lines 130-131 clear the status and the reconnect flag, not the error.
\<close>

theorem success_keeps_ice_error:
  "phase (attempts (run [Negotiate (Some ''abc123'') SetupOk, Settle 0 (Offer ''v=0''),
                         Settle 0 LocalDescriptionSet, IceGatheringStateChange 0 Complete,
                         Settle 0 (Response (Some \<lparr>resp_sdp = Some ''v=0 answer'',
                                                    resp_type = Some ''answer'',
                                                    resp_error = None\<rparr>)),
                         IceConnectionStateChange 0 Failed,
                         Settle 0 RemoteDescriptionSet] init) ! 0) = Returned \<and>
   error (run [Negotiate (Some ''abc123'') SetupOk, Settle 0 (Offer ''v=0''),
               Settle 0 LocalDescriptionSet, IceGatheringStateChange 0 Complete,
               Settle 0 (Response (Some \<lparr>resp_sdp = Some ''v=0 answer'',
                                          resp_type = Some ''answer'',
                                          resp_error = None\<rparr>)),
               IceConnectionStateChange 0 Failed,
               Settle 0 RemoteDescriptionSet] init) = Some ''Connection failed''"
  by (simp add: model_defs)

text \<open>
  Claim C8, as amended. When \<open>setRemoteDescription\<close> resolves, the activation returns
  normally with the status cleared and the reconnect flag false, and it leaves the error
  message as it is. The error is none at that point when, since the call of
  \<open>setupRTCConnection\<close> cleared it, no event set one: no ICE event reporting failed or
  disconnected on a connection with handlers, no rejection, no bad relay response, no
  other call of \<open>setupRTCConnection\<close>.
\<close>

theorem successful_attempt_state:
  "a < length (attempts s) \<Longrightarrow> phase (attempts s ! a) = AwaitSetRemoteDescription \<Longrightarrow>
   phase (attempts (step (Settle a RemoteDescriptionSet) s) ! a) = Returned \<and>
   status (step (Settle a RemoteDescriptionSet) s) = None \<and>
   \<not> reconnecting (step (Settle a RemoteDescriptionSet) s) \<and>
   error (step (Settle a RemoteDescriptionSet) s) = error s \<and>
   (truthy d \<and> list_all quiet evs \<and> s = run (Negotiate d SetupOk # evs) s0 \<longrightarrow>
      error (step (Settle a RemoteDescriptionSet) s) = None)"
proof -
  assume a: "a < length (attempts s)" and p: "phase (attempts s ! a) = AwaitSetRemoteDescription"
  have e: "error (run (Negotiate d SetupOk # evs) s0) = None"
    if "truthy d" "list_all quiet evs"
    using that by (simp add: run_Cons run_quiet_error setup_ok_error)
  have r: "step (Settle a RemoteDescriptionSet) s = after_setRemoteDescription a s"
    using a p by (simp add: settle_remote)
  show ?thesis
    unfolding r using a e
    by (auto simp only: after_setRemoteDescription_fields after_setRemoteDescription_phase)
qed

theorem successful_attempt_state_witness:
  "truthy (Some ''abc123'') \<and>
   phase (attempts (run [Negotiate (Some ''abc123'') SetupOk, Settle 0 (Offer ''v=0''),
                         Settle 0 LocalDescriptionSet, IceGatheringStateChange 0 Complete,
                         Settle 0 (Response (Some \<lparr>resp_sdp = Some ''v=0 answer'',
                                                    resp_type = Some ''answer'',
                                                    resp_error = None\<rparr>)),
                         Settle 0 RemoteDescriptionSet] init) ! 0) = Returned \<and>
   status (run [Negotiate (Some ''abc123'') SetupOk, Settle 0 (Offer ''v=0''),
                Settle 0 LocalDescriptionSet, IceGatheringStateChange 0 Complete,
                Settle 0 (Response (Some \<lparr>resp_sdp = Some ''v=0 answer'',
                                           resp_type = Some ''answer'',
                                           resp_error = None\<rparr>)),
                Settle 0 RemoteDescriptionSet] init) = None \<and>
   error (run [Negotiate (Some ''abc123'') SetupOk, Settle 0 (Offer ''v=0''),
               Settle 0 LocalDescriptionSet, IceGatheringStateChange 0 Complete,
               Settle 0 (Response (Some \<lparr>resp_sdp = Some ''v=0 answer'',
                                          resp_type = Some ''answer'',
                                          resp_error = None\<rparr>)),
               Settle 0 RemoteDescriptionSet] init) = None \<and>
   \<not> reconnecting (run [Negotiate (Some ''abc123'') SetupOk, Settle 0 (Offer ''v=0''),
                        Settle 0 LocalDescriptionSet, IceGatheringStateChange 0 Complete,
                        Settle 0 (Response (Some \<lparr>resp_sdp = Some ''v=0 answer'',
                                                   resp_type = Some ''answer'',
                                                   resp_error = None\<rparr>)),
                        Settle 0 RemoteDescriptionSet] init)"
proof -
  let ?evs = "[Settle 0 (Offer ''v=0''), Settle 0 LocalDescriptionSet,
               IceGatheringStateChange 0 Complete,
               Settle 0 (Response (Some \<lparr>resp_sdp = Some ''v=0 answer'',
                                          resp_type = Some ''answer'', resp_error = None\<rparr>))]"
  let ?s = "run (Negotiate (Some ''abc123'') SetupOk # ?evs) init"
  have a: "0 < length (attempts ?s)"
    and p: "phase (attempts ?s ! 0) = AwaitSetRemoteDescription"
    by (simp_all add: model_defs)
  have t: "truthy (Some ''abc123'')" and q: "list_all quiet ?evs"
    by (simp_all add: truthy_def)
  have r: "run (Negotiate (Some ''abc123'') SetupOk # ?evs @ [Settle 0 RemoteDescriptionSet]) init
             = step (Settle 0 RemoteDescriptionSet) ?s"
    by (simp add: run_def)
  note w = successful_attempt_state [OF a p, of "Some ''abc123''" ?evs init]
  have "error (step (Settle 0 RemoteDescriptionSet) ?s) = None" using w t q by blast
  then show ?thesis using w t unfolding r [symmetric] by simp
qed

section \<open>Events of a torn-down connection\<close>

lemma disconnect_closes:
  "rtcConnection s = Some c \<Longrightarrow> c < length (conns s) \<Longrightarrow>
   closed (conns (disconnectRTCConnection s) ! c)"
  by (simp add: disconnectRTCConnection_def set_pc_def)

lemma setup_closes:
  assumes "truthy d" and "rtcConnection s = Some c" and "c < length (conns s)"
  shows "closed (conns (setupRTCConnection d out s) ! c)"
proof -
  have "c < length (conns (disconnectRTCConnection s))"
    using assms(3) by (simp add: disconnect_fields)
  then have "conns (setupRTCConnection d out s) ! c = conns (disconnectRTCConnection s) ! c"
    using assms(1)
    by (cases out) (simp_all add: setupRTCConnection_def Let_def catch_clause_def nth_append)
  then show ?thesis using assms(2,3) by (simp add: disconnect_closes)
qed

text \<open>
  Claim C3 as stated fails in its second half. The handlers of lines 56-75 do not look
  at which connection an event comes from: after the cleanup has closed connection 0
  and emptied the registry, a track event of connection 0 puts an entry into the
  registry, and an ICE event of connection 0 reporting failed sets the error.
\<close>

theorem stale_events_change_state:
  "streams (run [Negotiate (Some ''abc123'') SetupOk, Teardown] init) = [] \<and>
   rtcConnection (run [Negotiate (Some ''abc123'') SetupOk, Teardown] init) = None \<and>
   closed (conns (run [Negotiate (Some ''abc123'') SetupOk, Teardown] init) ! 0) \<and>
   error (run [Negotiate (Some ''abc123'') SetupOk, Teardown] init) = None \<and>
   streams (run [Negotiate (Some ''abc123'') SetupOk, Teardown, Track 0 ''t1''] init)
     = [\<lparr>stream = [''t1''], label = ''t1''\<rparr>] \<and>
   error (run [Negotiate (Some ''abc123'') SetupOk, Teardown,
               IceConnectionStateChange 0 Failed] init) = Some ''Connection failed''"
  by (simp add: model_defs)

text \<open>
  Claim C3, as amended. After the cleanup the track registry is empty, the ref holds no
  connection and the connection it held is closed; the reset at the start of a
  negotiation empties the registry and closes the connection held before, too. The
  handlers have no staleness guard: an event of a closed connection that is not the
  current one is handled like any other. A track event appends its entry unless the
  identifier is present; an ICE event reporting connected or completed clears the
  status, one reporting failed or disconnected sets the error; only for new, checking
  and closed does the observable state (streams, status, error, reconnect flag) stay as
  it is.
\<close>

theorem teardown_and_stale_events:
  "streams (step Teardown s) = [] \<and>
   rtcConnection (step Teardown s) = None \<and>
   (rtcConnection s = Some c \<and> c < length (conns s) \<longrightarrow>
      closed (conns (step Teardown s) ! c)) \<and>
   (truthy d \<longrightarrow> streams (step (Negotiate d out) s) = []) \<and>
   (truthy d \<and> rtcConnection s = Some c \<and> c < length (conns s) \<longrightarrow>
      closed (conns (step (Negotiate d out) s) ! c)) \<and>
   (c < length (conns s) \<and> handlers (conns s ! c) \<and> closed (conns s ! c) \<and>
    rtcConnection s \<noteq> Some c \<longrightarrow>
      streams (step (Track c tid) s) =
        (if list_ex (\<lambda>e. label e = tid) (streams s) then streams s
         else streams s @ [\<lparr>stream = [tid], label = tid\<rparr>]) \<and>
      status (step (IceConnectionStateChange c st) s) =
        (if st \<in> {Connected, Completed} then None else status s) \<and>
      error (step (IceConnectionStateChange c st) s) =
        (if st \<in> {Failed, Disconnected} then Some ''Connection failed'' else error s) \<and>
      streams (step (IceConnectionStateChange c st) s) = streams s \<and>
      reconnecting (step (IceConnectionStateChange c st) s) = reconnecting s)"
proof -
  have "streams (step (Track c tid) s) =
        (if list_ex (\<lambda>e. label e = tid) (streams s) then streams s
         else streams s @ [\<lparr>stream = [tid], label = tid\<rparr>])"
    if "c < length (conns s)" "handlers (conns s ! c)"
    using that by (simp add: ontrack_def)
  moreover have "closed (conns (step Teardown s) ! c)"
    if "rtcConnection s = Some c" "c < length (conns s)"
    using that by (simp add: disconnect_closes)
  moreover have "streams (step (Negotiate d out) s) = []" if "truthy d"
    using that by (simp add: setup_streams)
  moreover have "closed (conns (step (Negotiate d out) s) ! c)"
    if "truthy d" "rtcConnection s = Some c" "c < length (conns s)"
    using that by (simp add: setup_closes)
  ultimately show ?thesis
    using step_ice_status [of c s st] step_ice_error [of c s st]
    by (simp only: step_ice_frame step.simps(2) disconnect_fields) blast
qed

theorem teardown_and_stale_events_witness:
  "rtcConnection (run [Negotiate (Some ''abc123'') SetupOk] init) = Some 0 \<and>
   closed (conns (run [Negotiate (Some ''abc123'') SetupOk, Teardown] init) ! 0) \<and>
   handlers (conns (run [Negotiate (Some ''abc123'') SetupOk, Teardown] init) ! 0) \<and>
   rtcConnection (run [Negotiate (Some ''abc123'') SetupOk, Teardown] init) \<noteq> Some 0 \<and>
   truthy (Some ''abc123'') \<and>
   closed (conns (step (Negotiate (Some ''abc123'') SetupOk)
                    (run [Negotiate (Some ''abc123'') SetupOk] init)) ! 0) \<and>
   streams (run [Negotiate (Some ''abc123'') SetupOk, Teardown, Track 0 ''t1''] init)
     = [\<lparr>stream = [''t1''], label = ''t1''\<rparr>] \<and>
   status (run [Negotiate (Some ''abc123'') SetupOk, Teardown,
                IceConnectionStateChange 0 Checking] init)
     = status (run [Negotiate (Some ''abc123'') SetupOk, Teardown] init) \<and>
   error (run [Negotiate (Some ''abc123'') SetupOk, Teardown,
               IceConnectionStateChange 0 Checking] init)
     = error (run [Negotiate (Some ''abc123'') SetupOk, Teardown] init) \<and>
   streams (run [Negotiate (Some ''abc123'') SetupOk, Teardown,
                 Negotiate (Some ''abc123'') SetupOk] init) = []"
proof -
  let ?p = "run [Negotiate (Some ''abc123'') SetupOk] init"
  let ?s = "run [Negotiate (Some ''abc123'') SetupOk, Teardown] init"
  have r0: "?s = step Teardown ?p" by (simp add: run_def)
  have r1: "run [Negotiate (Some ''abc123'') SetupOk, Teardown, e] init = step e ?s" for e
    by (simp add: run_def)
  have cur: "rtcConnection ?p = Some 0" and len0: "0 < length (conns ?p)"
    by (simp_all add: model_defs)
  have len: "0 < length (conns ?s)" and h: "handlers (conns ?s ! 0)"
    and str: "streams ?s = []"
    by (simp_all add: model_defs)
  have t: "truthy (Some ''abc123'')" by (simp add: truthy_def)
  note w0 = teardown_and_stale_events [of ?p 0 "Some ''abc123''" SetupOk "''t1''" Checking]
  have cl: "closed (conns ?s ! 0)" and nc: "rtcConnection ?s \<noteq> Some 0"
    and rc: "closed (conns (step (Negotiate (Some ''abc123'') SetupOk) ?p) ! 0)"
    unfolding r0 using w0 cur len0 t by simp_all
  note w = teardown_and_stale_events [of ?s 0 "Some ''abc123''" SetupOk "''t1''" Checking]
  have "streams (step (Track 0 ''t1'') ?s) = [\<lparr>stream = [''t1''], label = ''t1''\<rparr>]"
    and "status (step (IceConnectionStateChange 0 Checking) ?s) = status ?s"
    and "error (step (IceConnectionStateChange 0 Checking) ?s) = error ?s"
    and "streams (step (Negotiate (Some ''abc123'') SetupOk) ?s) = []"
    using w len h cl nc t str by simp_all
  then show ?thesis using cur cl h nc t rc unfolding r1 by simp
qed

section \<open>The ICE wait is bounded\<close>

lemma fold_preserves_set:
  "(\<And>x s. x \<in> set xs \<Longrightarrow> P s \<Longrightarrow> P (f x s)) \<Longrightarrow> P s \<Longrightarrow> P (fold f xs s)"
  by (induction xs arbitrary: s) auto

lemma fold_upt_split:
  "a < n \<Longrightarrow> fold f [0..<n] s = fold f [Suc a..<n] (f a (fold f [0..<a] s))"
proof -
  assume "a < n"
  then have "[0..<n] = [0..<a] @ a # [Suc a..<n]"
    using upt_add_eq_append [of 0 a "n - a"] by (simp add: upt_conv_Cons)
  then show ?thesis by simp
qed

lemma waiting_bound_cong:
  "waiting_bound t0 a s \<Longrightarrow> attempts s' ! a = attempts s ! a \<Longrightarrow>
   length (attempts s') = length (attempts s) \<Longrightarrow> now s' = now s \<Longrightarrow>
   waiting_bound t0 a s'"
  by (simp add: waiting_bound_def)

lemma waiting_bound_other:
  "segment_frame b s s' \<Longrightarrow> b \<noteq> a \<Longrightarrow> waiting_bound t0 a s \<Longrightarrow> waiting_bound t0 a s'"
  by (simp add: segment_frame_def waiting_bound_def)

lemma waiting_bound_resolved:
  "a < length (attempts s) \<Longrightarrow>
   phase (attempts s ! a) \<in> {AwaitCallAthena, AwaitSetRemoteDescription, Returned, Caught} \<Longrightarrow>
   waiting_bound t0 a s"
  by (auto simp: waiting_bound_def)

lemma resolve_phase:
  "a < length (attempts s) \<Longrightarrow>
   phase (attempts (resolve a s) ! a) =
     (if phase (attempts s ! a) = AwaitIceGathering then AwaitCallAthena
      else phase (attempts s ! a))"
  by (simp add: resolve_def after_ice_wait_phase)

lemma resolve_length: "length (attempts (resolve a s)) = length (attempts s)"
  using resolve_frame [of a s] by (simp add: segment_frame_def)

lemma resolve_now: "now (resolve a s) = now s"
  using resolve_frame [of a s] by (simp add: segment_frame_def)

lemma ice_wait_bound:
  assumes "a < length (attempts s)"
  shows "waiting_bound (now s) a (ice_wait a s)"
proof (cases "iceGatheringState (conns s ! pc (attempts s ! a)) = Complete")
  case True
  with assms show ?thesis
    by (simp add: ice_wait_def Let_def waiting_bound_def resolve_phase resolve_length
        set_attempt_nth set_attempt_fields)
next
  case False
  with assms show ?thesis
    by (simp add: ice_wait_def Let_def waiting_bound_def set_attempt_nth set_attempt_fields)
qed

lemma resolve_bound: "waiting_bound t0 a s \<Longrightarrow> waiting_bound t0 a (resolve a s)"
  by (simp add: waiting_bound_def resolve_phase resolve_length resolve_now)

lemma checkState_bound: "waiting_bound t0 a s \<Longrightarrow> waiting_bound t0 a (checkState b s)"
proof (cases "b = a")
  case False
  assume "waiting_bound t0 a s"
  with False show ?thesis by (rule waiting_bound_other [OF checkState_frame])
next
  case True
  assume w: "waiting_bound t0 a s"
  have "waiting_bound t0 a (set_attempt a (\<lambda>t. t\<lparr>listener := False\<rparr>) s)"
    using w by (simp add: waiting_bound_def set_attempt_nth set_attempt_fields)
  then have "waiting_bound t0 a (resolve a (set_attempt a (\<lambda>t. t\<lparr>listener := False\<rparr>) s))"
    by (rule resolve_bound)
  with w True show ?thesis by (simp add: checkState_def)
qed

lemma dispatch_gathering_bound:
  "waiting_bound t0 a s \<Longrightarrow> waiting_bound t0 a (dispatch_gathering c s)"
  unfolding dispatch_gathering_def
  by (rule fold_preserves [where P = "waiting_bound t0 a"]) (simp_all add: checkState_bound)

text \<open>The timeout callback of \<open>a\<close> ends the wait of \<open>a\<close>.\<close>

lemma timeout_callback_bound:
  assumes "a < length (attempts s)" and "phase (attempts s ! a) \<noteq> AwaitCreateOffer"
    and "phase (attempts s ! a) \<noteq> AwaitSetLocalDescription"
  shows "waiting_bound t0 a (timeout_callback a s)"
  using assms
  by (simp add: timeout_callback_def waiting_bound_def resolve_phase resolve_length
      set_attempt_nth set_attempt_fields)

lemma timer_step_frame:
  "segment_frame b s
     (case timer (attempts s ! b) of
        Some d \<Rightarrow> if d \<le> now s then timeout_callback b s else s
      | None \<Rightarrow> s)"
  by (simp add: timeout_callback_frame segment_frame_refl split: option.split)

lemma fire_timers_bound:
  assumes "waiting_bound t0 a s"
  shows "waiting_bound t0 a (fire_timers (s\<lparr>now := now s + 1\<rparr>))"
proof -
  let ?F = "\<lambda>b s. case timer (attempts s ! b) of
                     Some d \<Rightarrow> if d \<le> now s then timeout_callback b s else s
                   | None \<Rightarrow> s"
  let ?x = "s\<lparr>now := now s + 1\<rparr>"
  let ?n = "length (attempts s)"
  let ?y = "fold ?F [0..<a] ?x"
  from assms have a: "a < ?n" by (simp add: waiting_bound_def)
  have "attempts ?y ! a = attempts ?x ! a \<and> now ?y = now ?x \<and>
        length (attempts ?y) = length (attempts ?x)"
  proof (rule fold_preserves_set
      [where P = "\<lambda>y. attempts y ! a = attempts ?x ! a \<and> now y = now ?x \<and>
                       length (attempts y) = length (attempts ?x)"])
    fix b and y :: session
    assume "b \<in> set [0..<a]"
      and "attempts y ! a = attempts ?x ! a \<and> now y = now ?x \<and>
           length (attempts y) = length (attempts ?x)"
    then show "attempts (?F b y) ! a = attempts ?x ! a \<and> now (?F b y) = now ?x \<and>
               length (attempts (?F b y)) = length (attempts ?x)"
      using timer_step_frame [of b y] by (simp add: segment_frame_def)
  qed simp
  then have y: "attempts ?y ! a = attempts s ! a" "now ?y = now s + 1"
    "length (attempts ?y) = ?n"
    by simp_all
  have mid: "waiting_bound t0 a (?F a ?y)"
  proof (cases "timer (attempts ?y ! a)")
    case None
    with assms y show ?thesis by (auto simp: waiting_bound_def)
  next
    case (Some d)
    show ?thesis
    proof (cases "d \<le> now ?y")
      case True
      have "waiting_bound t0 a (timeout_callback a ?y)"
        using assms y by (intro timeout_callback_bound) (simp_all add: waiting_bound_def)
      with Some True show ?thesis by simp
    next
      case False
      with Some assms y show ?thesis by (auto simp: waiting_bound_def)
    qed
  qed
  have "waiting_bound t0 a (fold ?F [Suc a..<?n] (?F a ?y))"
  proof (rule fold_preserves_set [where P = "waiting_bound t0 a"])
    fix b and y :: session
    assume "b \<in> set [Suc a..<?n]" and "waiting_bound t0 a y"
    then show "waiting_bound t0 a (?F b y)"
      using waiting_bound_other [OF timer_step_frame, of b a t0 y] by simp
  qed (rule mid)
  then show ?thesis
    using fold_upt_split [OF a, of ?F ?x] by (simp add: fire_timers_def)
qed

lemma resume_bound:
  assumes "waiting_bound t0 a s"
  shows "waiting_bound t0 a (resume b r s)"
proof (cases "b = a")
  case False
  then show ?thesis using assms by (rule waiting_bound_other [OF resume_frame])
next
  case True
  from assms have a: "a < length (attempts s)" by (simp add: waiting_bound_def)
  have len: "length (attempts (resume a r s)) = length (attempts s)"
    using resume_frame [of a s r] by (simp add: segment_frame_def)
  show ?thesis
  proof (cases "phase (attempts s ! a)")
    case AwaitCallAthena
    have "phase (attempts (resume a r s) ! a)
            \<in> {AwaitCallAthena, AwaitSetRemoteDescription, Returned, Caught}"
      using a AwaitCallAthena
      by (cases r)
         (auto simp: resume_def throw_phase after_callAthena_def set_attempt_nth
           split: option.splits)
    then show ?thesis using a len True by (intro waiting_bound_resolved) simp_all
  next
    case AwaitSetRemoteDescription
    have "phase (attempts (resume a r s) ! a)
            \<in> {AwaitCallAthena, AwaitSetRemoteDescription, Returned, Caught}"
      using a AwaitSetRemoteDescription
      by (cases r) (auto simp: resume_def throw_phase after_setRemoteDescription_phase)
    then show ?thesis using a len True by (intro waiting_bound_resolved) simp_all
  qed (use assms True in \<open>simp_all add: resume_def waiting_bound_def\<close>)
qed

lemma setup_attempts:
  "\<exists>ts. attempts (setupRTCConnection d out s) = attempts s @ ts"
  by (cases out)
     (simp_all add: setupRTCConnection_def Let_def catch_clause_fields disconnect_fields)

lemma setup_now: "now (setupRTCConnection d out s) = now s"
  by (cases out)
     (simp_all add: setupRTCConnection_def Let_def catch_clause_fields disconnect_fields)

lemma setup_bound:
  assumes "waiting_bound t0 a s"
  shows "waiting_bound t0 a (setupRTCConnection d out s)"
proof -
  obtain ts where "attempts (setupRTCConnection d out s) = attempts s @ ts"
    using setup_attempts by blast
  with assms show ?thesis by (simp add: waiting_bound_def nth_append setup_now)
qed

lemma step_bound: "waiting_bound t0 a s \<Longrightarrow> waiting_bound t0 a (step e s)"
proof (cases e)
  case (IceGatheringStateChange c g)
  assume "waiting_bound t0 a s"
  then have "waiting_bound t0 a (set_pc c (\<lambda>p. p\<lparr>iceGatheringState := g\<rparr>) s)"
    by (rule waiting_bound_cong) (simp_all add: set_pc_fields)
  with IceGatheringStateChange \<open>waiting_bound t0 a s\<close> show ?thesis
    by (simp add: dispatch_gathering_bound)
next
  case (IceConnectionStateChange c st)
  assume "waiting_bound t0 a s"
  then show ?thesis
    by (rule waiting_bound_cong) (simp_all add: IceConnectionStateChange step_ice_frame del: step.simps)
next
  case Tick
  assume "waiting_bound t0 a s"
  then show ?thesis using Tick fire_timers_bound [of t0 a s] by simp
qed (simp_all add: setup_bound resume_bound,
     simp_all add: waiting_bound_def disconnect_fields ontrack_fields set_pc_fields)

lemma run_bound: "waiting_bound t0 a s \<Longrightarrow> waiting_bound t0 a (run evs s)"
  by (induction evs rule: rev_induct) (simp_all add: run_snoc step_bound, simp add: run_def)

lemma wait_resolved_by_deadline:
  assumes "a < length (attempts s)" and "phase (attempts s ! a) = AwaitSetLocalDescription"
    and "now s + 2000 \<le> now (run evs (step (Settle a LocalDescriptionSet) s))"
  shows "phase (attempts (run evs (step (Settle a LocalDescriptionSet) s)) ! a)
           \<notin> {AwaitCreateOffer, AwaitSetLocalDescription, AwaitIceGathering}"
proof -
  have "step (Settle a LocalDescriptionSet) s = ice_wait a s"
    using assms(1,2) by (simp add: resume_def)
  then have "waiting_bound (now s) a (run evs (step (Settle a LocalDescriptionSet) s))"
    using ice_wait_bound [OF assms(1)] by (simp add: run_bound)
  with assms(3) show ?thesis by (auto simp: waiting_bound_def)
qed

section \<open>What ends the ICE wait\<close>

lemma wait_outcome_other:
  "segment_frame b s s' \<Longrightarrow> b \<noteq> a \<Longrightarrow> wait_outcome a w s \<Longrightarrow> wait_outcome a w s'"
  by (simp add: segment_frame_def wait_outcome_def)

lemma wait_outcome_flags:
  "(\<And>t. pc (f t) = pc t \<and> dongleId (f t) = dongleId t \<and> phase (f t) = phase t \<and>
         request (f t) = request t) \<Longrightarrow>
   wait_outcome a w s \<Longrightarrow> wait_outcome a w (set_attempt a f s)"
  by (simp add: wait_outcome_def set_attempt_nth set_attempt_fields)

lemma resolve_outcome: "wait_outcome a w s \<Longrightarrow> wait_outcome a w (resolve a s)"
  by (auto simp: wait_outcome_def resolve_def after_ice_wait_def Let_def set_attempt_nth
      set_attempt_fields)

lemma checkState_outcome: "wait_outcome a w s \<Longrightarrow> wait_outcome a w (checkState b s)"
proof (cases "b = a")
  case False
  assume "wait_outcome a w s"
  with False show ?thesis by (rule wait_outcome_other [OF checkState_frame])
next
  case True
  assume "wait_outcome a w s"
  then have "wait_outcome a w (resolve a (set_attempt a (\<lambda>t. t\<lparr>listener := False\<rparr>) s))"
    by (intro resolve_outcome wait_outcome_flags) simp_all
  with True \<open>wait_outcome a w s\<close> show ?thesis by (simp add: checkState_def)
qed

lemma timeout_callback_outcome:
  "wait_outcome a w s \<Longrightarrow> wait_outcome a w (timeout_callback b s)"
proof (cases "b = a")
  case False
  assume "wait_outcome a w s"
  with False show ?thesis by (rule wait_outcome_other [OF timeout_callback_frame])
next
  case True
  assume "wait_outcome a w s"
  then have "wait_outcome a w
               (resolve a (set_attempt a (\<lambda>t. t\<lparr>listener := False, timer := None\<rparr>) s))"
    by (intro resolve_outcome wait_outcome_flags) simp_all
  with True show ?thesis by (simp add: timeout_callback_def)
qed

lemma dispatch_gathering_outcome:
  "wait_outcome a w s \<Longrightarrow> wait_outcome a w (dispatch_gathering c s)"
  unfolding dispatch_gathering_def
  by (rule fold_preserves [where P = "wait_outcome a w"]) (simp_all add: checkState_outcome)

lemma fire_timers_outcome:
  "wait_outcome a w s \<Longrightarrow> wait_outcome a w (fire_timers s)"
  unfolding fire_timers_def
  by (rule fold_preserves [where P = "wait_outcome a w"])
     (simp_all add: timeout_callback_outcome split: option.split)

lemma wait_outcome_start:
  "a < length (attempts s) \<Longrightarrow> phase (attempts s ! a) = AwaitIceGathering \<Longrightarrow>
   wait_outcome a (attempts s ! a) s"
  by (simp add: wait_outcome_def)

lemma wait_end:
  assumes a: "a < length (attempts s)" and p: "phase (attempts s ! a) = AwaitIceGathering"
    and q: "phase (attempts (step e s) ! a) \<noteq> AwaitIceGathering"
  shows "phase (attempts (step e s) ! a) = AwaitCallAthena \<and>
         request (attempts (step e s) ! a) =
           Some (forwardWebRTC (localDescription (conns (step e s) ! pc (attempts s ! a)))
                   (dongleId (attempts s ! a))) \<and>
         error (step e s) = error s"
proof -
  let ?w = "attempts s ! a"
  note start = wait_outcome_start [OF a p]
  have unchanged: False if "attempts (step e s) ! a = attempts s ! a"
    using that p q by simp
  show ?thesis
  proof (cases e)
    case (Negotiate d out)
    obtain ts where "attempts (setupRTCConnection d out s) = attempts s @ ts"
      using setup_attempts by blast
    with Negotiate a have "attempts (step e s) ! a = attempts s ! a" by (simp add: nth_append)
    then show ?thesis using unchanged by simp
  next
    case Teardown
    then have "attempts (step e s) ! a = attempts s ! a" by (simp add: disconnect_fields)
    then show ?thesis using unchanged by simp
  next
    case (Track c tid)
    then have "attempts (step e s) ! a = attempts s ! a" by (simp add: ontrack_fields)
    then show ?thesis using unchanged by simp
  next
    case (IceConnectionStateChange c st)
    then have "attempts (step e s) ! a = attempts s ! a" by (simp only: step_ice_frame)
    then show ?thesis using unchanged by simp
  next
    case (IceGatheringStateChange c g)
    let ?t = "set_pc c (\<lambda>p. p\<lparr>iceGatheringState := g\<rparr>) s"
    have "wait_outcome a ?w ?t"
      using start by (auto simp: wait_outcome_def set_pc_fields set_pc_nth)
    then have "wait_outcome a ?w (dispatch_gathering c ?t)" by (rule dispatch_gathering_outcome)
    moreover have "step e s = dispatch_gathering c ?t"
      using IceGatheringStateChange unchanged by (cases "c < length (conns s)") simp_all
    moreover have "error (step e s) = error s"
      using IceGatheringStateChange by (intro step_quiet_error) simp
    ultimately show ?thesis using q by (simp add: wait_outcome_def)
  next
    case (LocalDescriptionChange c d)
    then have "attempts (step e s) ! a = attempts s ! a" by (simp add: set_pc_fields)
    then show ?thesis using unchanged by simp
  next
    case Tick
    have "wait_outcome a ?w (s\<lparr>now := now s + 1\<rparr>)"
      using start by (simp add: wait_outcome_def)
    then have "wait_outcome a ?w (fire_timers (s\<lparr>now := now s + 1\<rparr>))"
      by (rule fire_timers_outcome)
    moreover have "error (step e s) = error s"
      using Tick by (intro step_quiet_error) simp
    ultimately show ?thesis using q Tick by (simp add: wait_outcome_def)
  next
    case (Settle b r)
    have "attempts (resume b r s) ! a = attempts s ! a"
    proof (cases "b = a")
      case True
      with a p show ?thesis by (simp add: resume_def)
    next
      case False
      then show ?thesis using resume_frame [of b s r] by (simp add: segment_frame_def)
    qed
    with Settle show ?thesis using unchanged by simp
  qed
qed

lemma loser_ignored:
  assumes "a < length (attempts s)" and "phase (attempts s ! a) \<noteq> AwaitIceGathering"
  shows "phase (attempts (timeout_callback a s) ! a) = phase (attempts s ! a)"
    and "request (attempts (timeout_callback a s) ! a) = request (attempts s ! a)"
    and "status (timeout_callback a s) = status s"
    and "error (timeout_callback a s) = error s"
    and "reconnecting (timeout_callback a s) = reconnecting s"
    and "streams (timeout_callback a s) = streams s"
    and "phase (attempts (checkState a s) ! a) = phase (attempts s ! a)"
    and "request (attempts (checkState a s) ! a) = request (attempts s ! a)"
    and "status (checkState a s) = status s"
    and "error (checkState a s) = error s"
    and "reconnecting (checkState a s) = reconnecting s"
    and "streams (checkState a s) = streams s"
  using assms
  by (simp_all add: timeout_callback_def checkState_def resolve_def set_attempt_nth
      set_attempt_fields)

lemma now_step_Tick: "now (step Tick s) = now s + 1"
  using fire_timers_frame [of "s\<lparr>now := now s + 1\<rparr>"] by (simp add: env_frame_def)

lemma now_run_ticks: "now (run (replicate n Tick) s) = now s + n"
  by (induction n)
     (simp_all add: run_def replicate_append_same [symmetric] now_step_Tick del: replicate_Suc step.simps)

lemma settle_local:
  "a < length (attempts s) \<Longrightarrow> phase (attempts s ! a) = AwaitSetLocalDescription \<Longrightarrow>
   resume a LocalDescriptionSet s = ice_wait a s"
  by (simp add: resume_def)

lemma ice_wait_immediate:
  assumes "a < length (attempts s)"
    and "iceGatheringState (conns s ! pc (attempts s ! a)) = Complete"
  shows "phase (attempts (ice_wait a s) ! a) = AwaitCallAthena"
    and "request (attempts (ice_wait a s) ! a) =
           Some (forwardWebRTC (localDescription (conns s ! pc (attempts s ! a)))
                   (dongleId (attempts s ! a)))"
  using assms
  by (simp_all add: ice_wait_def resolve_def after_ice_wait_def Let_def set_attempt_nth
      set_attempt_fields)

lemma ice_wait_pending:
  assumes "a < length (attempts s)"
    and "iceGatheringState (conns s ! pc (attempts s ! a)) \<noteq> Complete"
  shows "phase (attempts (ice_wait a s) ! a) = AwaitIceGathering"
    and "timer (attempts (ice_wait a s) ! a) = Some (now s + 2000)"
  using assms by (simp_all add: ice_wait_def Let_def set_attempt_nth set_attempt_fields)

text \<open>Past the ICE wait the relay has been called.\<close>

lemma relay_called_other:
  "segment_frame b s s' \<Longrightarrow> b \<noteq> a \<Longrightarrow> relay_called a d s \<Longrightarrow> relay_called a d s'"
  by (simp add: segment_frame_def relay_called_def)

lemma relay_called_cong:
  "relay_called a d s \<Longrightarrow> attempts s' = attempts s \<Longrightarrow> relay_called a d s'"
  by (simp add: relay_called_def)

lemma relay_called_flags:
  "(\<And>t. dongleId (f t) = dongleId t \<and> request (f t) = request t \<and>
         (phase t = AwaitIceGathering \<longrightarrow> phase (f t) = AwaitIceGathering)) \<Longrightarrow>
   relay_called a d s \<Longrightarrow> relay_called a d (set_attempt a f s)"
  by (auto simp: relay_called_def set_attempt_nth set_attempt_fields)

lemma relay_called_phase:
  "phase (attempts s ! a) \<noteq> AwaitIceGathering \<Longrightarrow> relay_called a d s \<Longrightarrow>
   relay_called a d (set_attempt a (\<lambda>t. t\<lparr>phase := ph\<rparr>) s)"
  by (auto simp: relay_called_def set_attempt_nth set_attempt_fields)

lemma resolve_called: "relay_called a d s \<Longrightarrow> relay_called a d (resolve a s)"
  by (auto simp: relay_called_def resolve_def after_ice_wait_def forwardWebRTC_def Let_def
      set_attempt_nth set_attempt_fields)

lemma checkState_called: "relay_called a d s \<Longrightarrow> relay_called a d (checkState b s)"
proof (cases "b = a")
  case False
  assume "relay_called a d s"
  with False show ?thesis by (rule relay_called_other [OF checkState_frame])
next
  case True
  assume c: "relay_called a d s"
  then have "relay_called a d (resolve a (set_attempt a (\<lambda>t. t\<lparr>listener := False\<rparr>) s))"
    by (intro resolve_called relay_called_flags) simp_all
  with True c show ?thesis by (simp add: checkState_def)
qed

lemma timeout_callback_called:
  "relay_called a d s \<Longrightarrow> relay_called a d (timeout_callback b s)"
proof (cases "b = a")
  case False
  assume "relay_called a d s"
  with False show ?thesis by (rule relay_called_other [OF timeout_callback_frame])
next
  case True
  assume "relay_called a d s"
  then have "relay_called a d
               (resolve a (set_attempt a (\<lambda>t. t\<lparr>listener := False, timer := None\<rparr>) s))"
    by (intro resolve_called relay_called_flags) simp_all
  with True show ?thesis by (simp add: timeout_callback_def)
qed

lemma dispatch_gathering_called:
  "relay_called a d s \<Longrightarrow> relay_called a d (dispatch_gathering c s)"
  unfolding dispatch_gathering_def
  by (rule fold_preserves [where P = "relay_called a d"]) (simp_all add: checkState_called)

lemma fire_timers_called:
  "relay_called a d s \<Longrightarrow> relay_called a d (fire_timers s)"
  unfolding fire_timers_def
  by (rule fold_preserves [where P = "relay_called a d"])
     (simp_all add: timeout_callback_called split: option.split)

lemma ice_wait_called:
  "a < length (attempts s) \<Longrightarrow> relay_called a (dongleId (attempts s ! a)) (ice_wait a s)"
  by (simp add: relay_called_def ice_wait_def resolve_def after_ice_wait_def forwardWebRTC_def
      Let_def set_attempt_nth set_attempt_fields)

lemma throw_called:
  "phase (attempts s ! a) \<noteq> AwaitIceGathering \<Longrightarrow> relay_called a d s \<Longrightarrow>
   relay_called a d (throw a e s)"
  by (auto simp: relay_called_def throw_def catch_clause_fields set_attempt_nth
      set_attempt_fields)

lemma resume_called:
  assumes "relay_called a d s" and "phase (attempts s ! a) \<noteq> AwaitSetLocalDescription"
  shows "relay_called a d (resume b r s)"
proof (cases "b = a")
  case False
  then show ?thesis using assms(1) by (rule relay_called_other [OF resume_frame])
next
  case True
  show ?thesis
  proof (cases "phase (attempts s ! a) = AwaitIceGathering")
    case True
    with assms \<open>b = a\<close> show ?thesis by (simp add: resume_def)
  next
    case False
    with assms \<open>b = a\<close> show ?thesis
      by (auto simp: resume_def after_callAthena_def after_setRemoteDescription_def
          throw_called relay_called_phase relay_called_cong
          split: phase.splits settlement.splits option.splits)
  qed
qed

lemma setup_called:
  assumes "relay_called a d s"
  shows "relay_called a d (setupRTCConnection d' out s)"
proof -
  obtain ts where "attempts (setupRTCConnection d' out s) = attempts s @ ts"
    using setup_attempts by blast
  with assms show ?thesis by (simp add: relay_called_def nth_append)
qed

lemma step_called:
  assumes "relay_called a d s" and "waiting_bound t0 a s"
  shows "relay_called a d (step e s)"
proof (cases e)
  case (Negotiate d' out)
  with assms(1) show ?thesis by (simp add: setup_called)
next
  case Teardown
  with assms(1) show ?thesis by (simp add: relay_called_def disconnect_fields)
next
  case (Track c tid)
  with assms(1) show ?thesis by (simp add: relay_called_def ontrack_fields)
next
  case (IceConnectionStateChange c st)
  from assms(1) show ?thesis
    unfolding IceConnectionStateChange by (rule relay_called_cong) (simp only: step_ice_frame)
next
  case (IceGatheringStateChange c g)
  from assms(1) have "relay_called a d (set_pc c (\<lambda>p. p\<lparr>iceGatheringState := g\<rparr>) s)"
    by (rule relay_called_cong) (simp add: set_pc_fields)
  with IceGatheringStateChange assms(1) show ?thesis
    by (simp add: dispatch_gathering_called)
next
  case (LocalDescriptionChange c l)
  with assms(1) show ?thesis by (simp add: relay_called_def set_pc_fields)
next
  case Tick
  from assms(1) have "relay_called a d (s\<lparr>now := now s + 1\<rparr>)"
    by (rule relay_called_cong) simp
  then have "relay_called a d (fire_timers (s\<lparr>now := now s + 1\<rparr>))"
    by (rule fire_timers_called)
  with Tick show ?thesis by simp
next
  case (Settle b r)
  from assms(2) have "phase (attempts s ! a) \<noteq> AwaitSetLocalDescription"
    by (simp add: waiting_bound_def)
  with assms(1) Settle show ?thesis by (simp add: resume_called)
qed

lemma run_called:
  "relay_called a d s \<Longrightarrow> waiting_bound t0 a s \<Longrightarrow> relay_called a d (run evs s)"
proof (induction evs rule: rev_induct)
  case Nil
  then show ?case by (simp add: run_def)
next
  case (snoc e evs)
  then show ?case by (simp add: run_snoc step_called [OF _ run_bound])
qed

lemma relay_called_by_deadline:
  assumes "a < length (attempts s)" and "phase (attempts s ! a) = AwaitSetLocalDescription"
    and "now s + 2000 \<le> now (run evs (step (Settle a LocalDescriptionSet) s))"
  shows "\<exists>sdp. request (attempts (run evs (step (Settle a LocalDescriptionSet) s)) ! a) =
           Some \<lparr>req_type = ''forwardWebRTC'', req_sdp = sdp,
                  cameras = [''driver'', ''wideRoad''],
                  bridge_services_in = [], bridge_services_out = [],
                  req_dongleId = dongleId (attempts s ! a)\<rparr>"
proof -
  let ?t = "run evs (step (Settle a LocalDescriptionSet) s)"
  have r: "step (Settle a LocalDescriptionSet) s = ice_wait a s"
    using assms(1,2) by (simp add: resume_def)
  have "relay_called a (dongleId (attempts s ! a)) ?t"
    unfolding r using ice_wait_called [OF assms(1)] ice_wait_bound [OF assms(1)]
    by (rule run_called)
  moreover have "phase (attempts ?t ! a) \<noteq> AwaitIceGathering"
    using wait_resolved_by_deadline [OF assms] by simp
  ultimately show ?thesis by (simp add: relay_called_def)
qed

section \<open>The ICE-gathering wait\<close>

text \<open>
  Claim C9. Time is the model's clock: \<open>Tick\<close> is one millisecond and a timer fires in
  the tick that reaches its due time. For an activation whose \<open>setLocalDescription\<close>
  resolves in state \<open>s\<close>:
  \<^item> if gathering is complete already, the wait resolves in that same segment and the
    relay is called with the \<open>forwardWebRTC\<close> request whose \<open>sdp\<close> is the local
    description of that moment;
  \<^item> whatever events follow, once the clock has reached \<open>now s + 2000\<close> the wait is over
    and the relay has been called with a \<open>forwardWebRTC\<close> request for the activation's
    device, also when no gathering event ever came;
  \<^item> whichever event ends a pending wait, the activation is then at the relay call,
    the \<open>sdp\<close> of its request is the local description the connection has at that
    moment, and the error message is untouched;
  \<^item> the side that loses the race is ignored: once the wait of an activation is over,
    its timeout callback and its listener change neither its phase or request nor the
    status, the error, the reconnect flag or the track registry.
\<close>

theorem ice_gathering_wait_resolves:
  assumes "a < length (attempts s)" and "phase (attempts s ! a) = AwaitSetLocalDescription"
  shows
    "(iceGatheringState (conns s ! pc (attempts s ! a)) = Complete \<longrightarrow>
        phase (attempts (step (Settle a LocalDescriptionSet) s) ! a) = AwaitCallAthena \<and>
        request (attempts (step (Settle a LocalDescriptionSet) s) ! a) =
          Some \<lparr>req_type = ''forwardWebRTC'',
                 req_sdp = localDescription (conns s ! pc (attempts s ! a)),
                 cameras = [''driver'', ''wideRoad''],
                 bridge_services_in = [], bridge_services_out = [],
                 req_dongleId = dongleId (attempts s ! a)\<rparr>) \<and>
     (iceGatheringState (conns s ! pc (attempts s ! a)) \<noteq> Complete \<longrightarrow>
        phase (attempts (step (Settle a LocalDescriptionSet) s) ! a) = AwaitIceGathering \<and>
        timer (attempts (step (Settle a LocalDescriptionSet) s) ! a) = Some (now s + 2000)) \<and>
     (now s + 2000 \<le> now (run evs (step (Settle a LocalDescriptionSet) s)) \<longrightarrow>
        phase (attempts (run evs (step (Settle a LocalDescriptionSet) s)) ! a)
          \<notin> {AwaitCreateOffer, AwaitSetLocalDescription, AwaitIceGathering} \<and>
        (\<exists>sdp. request (attempts (run evs (step (Settle a LocalDescriptionSet) s)) ! a) =
           Some \<lparr>req_type = ''forwardWebRTC'', req_sdp = sdp,
                  cameras = [''driver'', ''wideRoad''],
                  bridge_services_in = [], bridge_services_out = [],
                  req_dongleId = dongleId (attempts s ! a)\<rparr>)) \<and>
     (b < length (attempts t) \<and> phase (attempts t ! b) = AwaitIceGathering \<and>
      phase (attempts (step e t) ! b) \<noteq> AwaitIceGathering \<longrightarrow>
        phase (attempts (step e t) ! b) = AwaitCallAthena \<and>
        request (attempts (step e t) ! b) =
          Some \<lparr>req_type = ''forwardWebRTC'',
                 req_sdp = localDescription (conns (step e t) ! pc (attempts t ! b)),
                 cameras = [''driver'', ''wideRoad''],
                 bridge_services_in = [], bridge_services_out = [],
                 req_dongleId = dongleId (attempts t ! b)\<rparr> \<and>
        error (step e t) = error t) \<and>
     (b < length (attempts t) \<and> phase (attempts t ! b) \<noteq> AwaitIceGathering \<longrightarrow>
        phase (attempts (timeout_callback b t) ! b) = phase (attempts t ! b) \<and>
        request (attempts (timeout_callback b t) ! b) = request (attempts t ! b) \<and>
        status (timeout_callback b t) = status t \<and>
        error (timeout_callback b t) = error t \<and>
        reconnecting (timeout_callback b t) = reconnecting t \<and>
        streams (timeout_callback b t) = streams t \<and>
        phase (attempts (checkState b t) ! b) = phase (attempts t ! b) \<and>
        request (attempts (checkState b t) ! b) = request (attempts t ! b) \<and>
        status (checkState b t) = status t \<and>
        error (checkState b t) = error t \<and>
        reconnecting (checkState b t) = reconnecting t \<and>
        streams (checkState b t) = streams t)"
proof (intro conjI impI)
  note r = settle_local [OF assms]
  show "phase (attempts (step (Settle a LocalDescriptionSet) s) ! a) = AwaitCallAthena"
    and "request (attempts (step (Settle a LocalDescriptionSet) s) ! a) =
           Some \<lparr>req_type = ''forwardWebRTC'',
                 req_sdp = localDescription (conns s ! pc (attempts s ! a)),
                 cameras = [''driver'', ''wideRoad''],
                 bridge_services_in = [], bridge_services_out = [],
                 req_dongleId = dongleId (attempts s ! a)\<rparr>"
    if "iceGatheringState (conns s ! pc (attempts s ! a)) = Complete"
    using ice_wait_immediate [OF assms(1) that] by (simp_all add: r forwardWebRTC_def)
  show "phase (attempts (step (Settle a LocalDescriptionSet) s) ! a) = AwaitIceGathering"
    and "timer (attempts (step (Settle a LocalDescriptionSet) s) ! a) = Some (now s + 2000)"
    if "iceGatheringState (conns s ! pc (attempts s ! a)) \<noteq> Complete"
    using ice_wait_pending [OF assms(1) that] by (simp_all add: r)
  show "phase (attempts (run evs (step (Settle a LocalDescriptionSet) s)) ! a)
          \<notin> {AwaitCreateOffer, AwaitSetLocalDescription, AwaitIceGathering}"
    if "now s + 2000 \<le> now (run evs (step (Settle a LocalDescriptionSet) s))"
    using assms that by (rule wait_resolved_by_deadline)
  show "\<exists>sdp. request (attempts (run evs (step (Settle a LocalDescriptionSet) s)) ! a) =
           Some \<lparr>req_type = ''forwardWebRTC'', req_sdp = sdp,
                  cameras = [''driver'', ''wideRoad''],
                  bridge_services_in = [], bridge_services_out = [],
                  req_dongleId = dongleId (attempts s ! a)\<rparr>"
    if "now s + 2000 \<le> now (run evs (step (Settle a LocalDescriptionSet) s))"
    using assms that by (rule relay_called_by_deadline)
next
  assume w: "b < length (attempts t) \<and> phase (attempts t ! b) = AwaitIceGathering \<and>
             phase (attempts (step e t) ! b) \<noteq> AwaitIceGathering"
  then have *: "phase (attempts (step e t) ! b) = AwaitCallAthena \<and>
         request (attempts (step e t) ! b) =
           Some \<lparr>req_type = ''forwardWebRTC'',
                 req_sdp = localDescription (conns (step e t) ! pc (attempts t ! b)),
                 cameras = [''driver'', ''wideRoad''],
                 bridge_services_in = [], bridge_services_out = [],
                 req_dongleId = dongleId (attempts t ! b)\<rparr> \<and>
         error (step e t) = error t"
    using wait_end [of b t e] by (simp add: forwardWebRTC_def)
  from * show "phase (attempts (step e t) ! b) = AwaitCallAthena" by simp
  from * show "request (attempts (step e t) ! b) =
           Some \<lparr>req_type = ''forwardWebRTC'',
                 req_sdp = localDescription (conns (step e t) ! pc (attempts t ! b)),
                 cameras = [''driver'', ''wideRoad''],
                 bridge_services_in = [], bridge_services_out = [],
                 req_dongleId = dongleId (attempts t ! b)\<rparr>" by simp
  from * show "error (step e t) = error t" by simp
next
  assume w: "b < length (attempts t) \<and> phase (attempts t ! b) \<noteq> AwaitIceGathering"
  then have b: "b < length (attempts t)" and p: "phase (attempts t ! b) \<noteq> AwaitIceGathering"
    by simp_all
  note l = loser_ignored [OF b p]
  show "phase (attempts (timeout_callback b t) ! b) = phase (attempts t ! b)" by (rule l)
  show "request (attempts (timeout_callback b t) ! b) = request (attempts t ! b)" by (rule l)
  show "status (timeout_callback b t) = status t" by (rule l)
  show "error (timeout_callback b t) = error t" by (rule l)
  show "reconnecting (timeout_callback b t) = reconnecting t" by (rule l)
  show "streams (timeout_callback b t) = streams t" by (rule l)
  show "phase (attempts (checkState b t) ! b) = phase (attempts t ! b)" by (rule l)
  show "request (attempts (checkState b t) ! b) = request (attempts t ! b)" by (rule l)
  show "status (checkState b t) = status t" by (rule l)
  show "error (checkState b t) = error t" by (rule l)
  show "reconnecting (checkState b t) = reconnecting t" by (rule l)
  show "streams (checkState b t) = streams t" by (rule l)
qed

theorem ice_gathering_wait_resolves_witness:
  "phase (attempts (run [Negotiate (Some ''abc123'') SetupOk, Settle 0 (Offer ''v=0'')] init) ! 0)
     = AwaitSetLocalDescription \<and>
   phase (attempts (run [Negotiate (Some ''abc123'') SetupOk, Settle 0 (Offer ''v=0''),
                         Settle 0 LocalDescriptionSet] init) ! 0) = AwaitIceGathering \<and>
   timer (attempts (run [Negotiate (Some ''abc123'') SetupOk, Settle 0 (Offer ''v=0''),
                         Settle 0 LocalDescriptionSet] init) ! 0) = Some 2000 \<and>
   phase (attempts (run (replicate 2000 Tick)
                      (step (Settle 0 LocalDescriptionSet)
                         (run [Negotiate (Some ''abc123'') SetupOk, Settle 0 (Offer ''v=0'')]
                              init))) ! 0)
     \<notin> {AwaitCreateOffer, AwaitSetLocalDescription, AwaitIceGathering} \<and>
   (\<exists>sdp. request (attempts (run (replicate 2000 Tick)
                      (step (Settle 0 LocalDescriptionSet)
                         (run [Negotiate (Some ''abc123'') SetupOk, Settle 0 (Offer ''v=0'')]
                              init))) ! 0) =
      Some \<lparr>req_type = ''forwardWebRTC'', req_sdp = sdp,
             cameras = [''driver'', ''wideRoad''],
             bridge_services_in = [], bridge_services_out = [],
             req_dongleId = ''abc123''\<rparr>) \<and>
   phase (attempts (step (Settle 0 LocalDescriptionSet)
                      (run [Negotiate (Some ''abc123'') SetupOk, Settle 0 (Offer ''v=0''),
                            LocalDescriptionChange 0 (Some ''v=0 c1''),
                            IceGatheringStateChange 0 Complete] init)) ! 0) = AwaitCallAthena \<and>
   request (attempts (step (Settle 0 LocalDescriptionSet)
                      (run [Negotiate (Some ''abc123'') SetupOk, Settle 0 (Offer ''v=0''),
                            LocalDescriptionChange 0 (Some ''v=0 c1''),
                            IceGatheringStateChange 0 Complete] init)) ! 0)
     = Some \<lparr>req_type = ''forwardWebRTC'',
                 req_sdp = Some ''v=0 c1'',
                 cameras = [''driver'', ''wideRoad''],
                 bridge_services_in = [], bridge_services_out = [],
                 req_dongleId = ''abc123''\<rparr> \<and>
   request (attempts (step (IceGatheringStateChange 0 Complete)
                        (run [Negotiate (Some ''abc123'') SetupOk, Settle 0 (Offer ''v=0''),
                              Settle 0 LocalDescriptionSet,
                              LocalDescriptionChange 0 (Some ''v=0 c2'')] init)) ! 0)
     = Some \<lparr>req_type = ''forwardWebRTC'',
                 req_sdp = Some ''v=0 c2'',
                 cameras = [''driver'', ''wideRoad''],
                 bridge_services_in = [], bridge_services_out = [],
                 req_dongleId = ''abc123''\<rparr> \<and>
   status (timeout_callback 0
             (run [Negotiate (Some ''abc123'') SetupOk, Settle 0 (Offer ''v=0''),
                   Settle 0 LocalDescriptionSet, IceGatheringStateChange 0 Complete,
                   IceConnectionStateChange 0 Connected] init)) = None"
proof -
  let ?p = "run [Negotiate (Some ''abc123'') SetupOk, Settle 0 (Offer ''v=0'')] init"
  let ?q = "run [Negotiate (Some ''abc123'') SetupOk, Settle 0 (Offer ''v=0''),
                 LocalDescriptionChange 0 (Some ''v=0 c1''),
                 IceGatheringStateChange 0 Complete] init"
  let ?t = "run [Negotiate (Some ''abc123'') SetupOk, Settle 0 (Offer ''v=0''),
                 Settle 0 LocalDescriptionSet,
                 LocalDescriptionChange 0 (Some ''v=0 c2'')] init"
  let ?u = "run [Negotiate (Some ''abc123'') SetupOk, Settle 0 (Offer ''v=0''),
                 Settle 0 LocalDescriptionSet, IceGatheringStateChange 0 Complete,
                 IceConnectionStateChange 0 Connected] init"
  have p: "0 < length (attempts ?p)" "phase (attempts ?p ! 0) = AwaitSetLocalDescription"
    and pn: "now ?p = 0" "now (step (Settle 0 LocalDescriptionSet) ?p) = 0"
    and pg: "iceGatheringState (conns ?p ! pc (attempts ?p ! 0)) \<noteq> Complete"
    and pd: "dongleId (attempts ?p ! 0) = ''abc123''"
    and pr: "run [Negotiate (Some ''abc123'') SetupOk, Settle 0 (Offer ''v=0''),
                  Settle 0 LocalDescriptionSet] init = step (Settle 0 LocalDescriptionSet) ?p"
    by (simp_all add: model_defs)
  have q: "0 < length (attempts ?q)" "phase (attempts ?q ! 0) = AwaitSetLocalDescription"
    and qc: "iceGatheringState (conns ?q ! pc (attempts ?q ! 0)) = Complete"
    and ql: "localDescription (conns ?q ! pc (attempts ?q ! 0)) = Some ''v=0 c1''"
      "dongleId (attempts ?q ! 0) = ''abc123''"
    by (simp_all add: model_defs)
  have t: "0 < length (attempts ?t)" "phase (attempts ?t ! 0) = AwaitIceGathering"
    and tq: "phase (attempts (step (IceGatheringStateChange 0 Complete) ?t) ! 0) \<noteq> AwaitIceGathering"
    and tl: "localDescription (conns (step (IceGatheringStateChange 0 Complete) ?t)
               ! pc (attempts ?t ! 0)) = Some ''v=0 c2''" "dongleId (attempts ?t ! 0) = ''abc123''"
    by (simp_all add: model_defs)
  have u: "0 < length (attempts ?u)" "phase (attempts ?u ! 0) \<noteq> AwaitIceGathering"
    "status ?u = None"
    by (simp_all add: model_defs)
  note w1 = ice_gathering_wait_resolves [OF p, of "replicate 2000 Tick" 0 ?t
              "IceGatheringStateChange 0 Complete"]
  note w2 = ice_gathering_wait_resolves [OF q, of "[]" 0 ?u Tick]
  have pw: "phase (attempts (run [Negotiate (Some ''abc123'') SetupOk, Settle 0 (Offer ''v=0''),
                         Settle 0 LocalDescriptionSet] init) ! 0) = AwaitIceGathering"
    and pt: "timer (attempts (run [Negotiate (Some ''abc123'') SetupOk, Settle 0 (Offer ''v=0''),
                         Settle 0 LocalDescriptionSet] init) ! 0) = Some 2000"
    unfolding pr using w1 pg pn by simp_all
  have "phase (attempts (run (replicate 2000 Tick) (step (Settle 0 LocalDescriptionSet) ?p)) ! 0)
          \<notin> {AwaitCreateOffer, AwaitSetLocalDescription, AwaitIceGathering}"
    using w1 pn by (simp add: now_run_ticks)
  moreover have "\<exists>sdp. request (attempts (run (replicate 2000 Tick)
                      (step (Settle 0 LocalDescriptionSet) ?p)) ! 0) =
      Some \<lparr>req_type = ''forwardWebRTC'', req_sdp = sdp,
             cameras = [''driver'', ''wideRoad''],
             bridge_services_in = [], bridge_services_out = [],
             req_dongleId = ''abc123''\<rparr>"
    using w1 pn pd by (simp add: now_run_ticks)
  moreover have "request (attempts (step (IceGatheringStateChange 0 Complete) ?t) ! 0)
                   = Some \<lparr>req_type = ''forwardWebRTC'',
                 req_sdp = Some ''v=0 c2'',
                 cameras = [''driver'', ''wideRoad''],
                 bridge_services_in = [], bridge_services_out = [],
                 req_dongleId = ''abc123''\<rparr>"
    using w1 t tq tl by simp
  moreover have "phase (attempts (step (Settle 0 LocalDescriptionSet) ?q) ! 0) = AwaitCallAthena"
    and "request (attempts (step (Settle 0 LocalDescriptionSet) ?q) ! 0)
           = Some \<lparr>req_type = ''forwardWebRTC'',
                 req_sdp = Some ''v=0 c1'',
                 cameras = [''driver'', ''wideRoad''],
                 bridge_services_in = [], bridge_services_out = [],
                 req_dongleId = ''abc123''\<rparr>"
    using w2 qc ql by simp_all
  moreover have "status (timeout_callback 0 ?u) = None"
    using w2 u by simp
  ultimately show ?thesis using p(2) pw pt by simp
qed

end
